theory Spec2Isabelle
  imports Main "HOL-Library.Sublist" "HOL-Library.AList" "HOL-Library.Multiset"
begin

section \<open>Configuration\<close>

text \<open>
  The \<^verbatim>\<open>CONFIG\<close> object of the WebSocket server. Times are in milliseconds, except
  \<^verbatim>\<open>REDIS_TTL\<close>, which is in seconds.
\<close>

definition QUESTION_TIME_LIMIT :: nat where "QUESTION_TIME_LIMIT = 10000"
definition QUIZ_START_DELAY :: nat where "QUIZ_START_DELAY = 5000"
definition NEXT_QUESTION_DELAY :: nat where "NEXT_QUESTION_DELAY = 3000"
definition QUESTIONS_PER_QUIZ :: nat where "QUESTIONS_PER_QUIZ = 10"
definition REDIS_TTL :: nat where "REDIS_TTL = 600"
definition MAX_CONNECTIONS_PER_USER :: nat where "MAX_CONNECTIONS_PER_USER = 3"
definition RATE_LIMIT_WINDOW :: nat where "RATE_LIMIT_WINDOW = 1000"
definition RATE_LIMIT_MAX :: nat where "RATE_LIMIT_MAX = 10"

type_synonym conn_id = string
type_synonym room_id = string
type_synonym user_id = nat
type_synonym millis = nat

section \<open>JavaScript values\<close>

text \<open>
  Template literals render numbers in decimal. User ids and timestamps are natural
  numbers; a question index is an integer that the handler validates itself.
\<close>

definition digit :: "nat \<Rightarrow> char" where
  "digit d = ''0123456789'' ! d"

fun toString_nat :: "nat \<Rightarrow> string" where
  "toString_nat n =
     (if n < 10 then [digit n] else toString_nat (n div 10) @ [digit (n mod 10)])"

declare toString_nat.simps [simp del]

definition toString_int :: "int \<Rightarrow> string" where
  "toString_int i = (if i < 0 then CHR ''-'' # toString_nat (nat (- i)) else toString_nat (nat i))"

text \<open>A JavaScript \<^verbatim>\<open>Set\<close>: insertion ordered, without duplicates.\<close>

definition set_add :: "'a \<Rightarrow> 'a list \<Rightarrow> 'a list" where
  "set_add x xs = (if x \<in> set xs then xs else xs @ [x])"

definition set_delete :: "'a \<Rightarrow> 'a list \<Rightarrow> 'a list" where
  "set_delete x xs = removeAll x xs"

text \<open>Truthiness of \<^verbatim>\<open>string | undefined\<close>: the empty string is falsy.\<close>

fun truthy :: "string option \<Rightarrow> bool" where
  "truthy None = False"
| "truthy (Some v) = (v \<noteq> [])"

section \<open>The key-value store (Redis)\<close>

text \<open>
  One keyspace; a key holds a string or a set, with an optional absolute expiry time in
  milliseconds. A key whose expiry time has been reached is invisible to every command.
  A string command on a set (and the reverse) is answered by an error.
\<close>

datatype redis_value = RString string | RSet "string list"

datatype redis_error = WRONGTYPE

type_synonym redis_store = "string \<Rightarrow> (redis_value \<times> millis option) option"

definition redis_live :: "redis_store \<Rightarrow> millis \<Rightarrow> string \<Rightarrow> (redis_value \<times> millis option) option" where
  "redis_live r now k =
     (case r k of
        None \<Rightarrow> None
      | Some (v, None) \<Rightarrow> Some (v, None)
      | Some (v, Some t) \<Rightarrow> if now < t then Some (v, Some t) else None)"

definition redis_get :: "redis_store \<Rightarrow> millis \<Rightarrow> string \<Rightarrow> redis_error + string option" where
  "redis_get r now k =
     (case redis_live r now k of
        None \<Rightarrow> Inr None
      | Some (RString v, _) \<Rightarrow> Inr (Some v)
      | Some (RSet _, _) \<Rightarrow> Inl WRONGTYPE)"

definition redis_exists :: "redis_store \<Rightarrow> millis \<Rightarrow> string \<Rightarrow> bool" where
  "redis_exists r now k = (redis_live r now k \<noteq> None)"

definition redis_set :: "redis_store \<Rightarrow> string \<Rightarrow> string \<Rightarrow> redis_store" where
  "redis_set r k v = r(k \<mapsto> (RString v, None))"

definition redis_set_ex :: "redis_store \<Rightarrow> millis \<Rightarrow> string \<Rightarrow> string \<Rightarrow> nat \<Rightarrow> redis_store" where
  "redis_set_ex r now k v ttl = r(k \<mapsto> (RString v, Some (now + ttl * 1000)))"

text \<open>\<^verbatim>\<open>SET k v EX ttl NX\<close>: the boolean tells whether the key was set (\<^verbatim>\<open>'OK'\<close>).\<close>

definition redis_set_ex_nx ::
  "redis_store \<Rightarrow> millis \<Rightarrow> string \<Rightarrow> string \<Rightarrow> nat \<Rightarrow> bool \<times> redis_store" where
  "redis_set_ex_nx r now k v ttl =
     (if redis_exists r now k then (False, r) else (True, redis_set_ex r now k v ttl))"

definition redis_expire :: "redis_store \<Rightarrow> millis \<Rightarrow> string \<Rightarrow> nat \<Rightarrow> redis_store" where
  "redis_expire r now k ttl =
     (case redis_live r now k of
        None \<Rightarrow> r
      | Some (v, _) \<Rightarrow> r(k \<mapsto> (v, Some (now + ttl * 1000))))"

definition redis_sadd :: "redis_store \<Rightarrow> millis \<Rightarrow> string \<Rightarrow> string \<Rightarrow> redis_error + redis_store" where
  "redis_sadd r now k m =
     (case redis_live r now k of
        None \<Rightarrow> Inr (r(k \<mapsto> (RSet [m], None)))
      | Some (RSet ms, e) \<Rightarrow> Inr (r(k \<mapsto> (RSet (set_add m ms), e)))
      | Some (RString _, _) \<Rightarrow> Inl WRONGTYPE)"

definition redis_sismember :: "redis_store \<Rightarrow> millis \<Rightarrow> string \<Rightarrow> string \<Rightarrow> redis_error + bool" where
  "redis_sismember r now k m =
     (case redis_live r now k of
        None \<Rightarrow> Inr False
      | Some (RSet ms, _) \<Rightarrow> Inr (m \<in> set ms)
      | Some (RString _, _) \<Rightarrow> Inl WRONGTYPE)"

text \<open>Removing the last member of a set removes the key.\<close>

definition redis_srem :: "redis_store \<Rightarrow> millis \<Rightarrow> string \<Rightarrow> string \<Rightarrow> redis_error + redis_store" where
  "redis_srem r now k m =
     (case redis_live r now k of
        None \<Rightarrow> Inr r
      | Some (RSet ms, e) \<Rightarrow>
          Inr (if set_delete m ms = [] then r(k := None) else r(k \<mapsto> (RSet (set_delete m ms), e)))
      | Some (RString _, _) \<Rightarrow> Inl WRONGTYPE)"

definition redis_del :: "redis_store \<Rightarrow> string list \<Rightarrow> redis_store" where
  "redis_del r ks = (\<lambda>k. if k \<in> set ks then None else r k)"

subsection \<open>Key names\<close>

definition key_currentQuestion :: "room_id \<Rightarrow> string" where
  "key_currentQuestion roomId = ''room:'' @ roomId @ '':currentQuestion''"

definition key_participants :: "room_id \<Rightarrow> string" where
  "key_participants roomId = ''room:'' @ roomId @ '':participants''"

definition key_startTime :: "room_id \<Rightarrow> string" where
  "key_startTime roomId = ''room:'' @ roomId @ '':startTime''"

definition key_answered :: "room_id \<Rightarrow> int \<Rightarrow> user_id \<Rightarrow> string" where
  "key_answered roomId questionIndex userId =
     ''room:'' @ roomId @ '':q:'' @ toString_int questionIndex @ '':answered:'' @ toString_nat userId"

definition key_firstUser :: "room_id \<Rightarrow> int \<Rightarrow> string" where
  "key_firstUser roomId questionIndex =
     ''room:'' @ roomId @ '':q:'' @ toString_int questionIndex @ '':firstUser''"

definition key_expired :: "room_id \<Rightarrow> int \<Rightarrow> string" where
  "key_expired roomId questionIndex =
     ''room:'' @ roomId @ '':q:'' @ toString_int questionIndex @ '':expired''"

section \<open>The relational store (Prisma over PostgreSQL)\<close>

record user =
  user_name :: "string option"

record room =
  room_name :: string
  room_hostId :: user_id
  room_isActive :: bool
  room_maxPlayers :: nat

record roomParticipant =
  rp_roomId :: room_id
  rp_userId :: user_id
  rp_score :: int

record question =
  q_id :: nat
  q_text :: string
  q_options :: "string list"
  q_correctIdx :: int

record answerClaim =
  ac_roomId :: room_id
  ac_questionIndex :: int
  ac_userId :: user_id
  ac_txHash :: string

text \<open>
  Tables with a single-column primary key are maps; \<^verbatim>\<open>RoomParticipant\<close> and
  \<^verbatim>\<open>AnswerClaim\<close> are row lists in storage order, with their unique indexes
  \<^verbatim>\<open>RoomParticipant_roomId_userId_key\<close> and \<^verbatim>\<open>AnswerClaim_roomId_questionIndex_key\<close>
  and their foreign keys enforced by the operations that insert.
\<close>

record database =
  users :: "user_id \<Rightarrow> user option"
  rooms :: "room_id \<Rightarrow> room option"
  roomParticipants :: "roomParticipant list"
  questions :: "question list"
  answerClaims :: "answerClaim list"
  playerRatings :: "user_id \<Rightarrow> int option"

definition is_participant_row :: "room_id \<Rightarrow> user_id \<Rightarrow> roomParticipant \<Rightarrow> bool" where
  "is_participant_row roomId userId p = (rp_roomId p = roomId \<and> rp_userId p = userId)"

definition is_claim_row :: "room_id \<Rightarrow> int \<Rightarrow> answerClaim \<Rightarrow> bool" where
  "is_claim_row roomId questionIndex a = (ac_roomId a = roomId \<and> ac_questionIndex a = questionIndex)"

text \<open>\<^verbatim>\<open>tx.answerClaim.create\<close>: fails on a unique or foreign key violation.\<close>

definition answerClaim_create :: "database \<Rightarrow> answerClaim \<Rightarrow> database option" where
  "answerClaim_create d a =
     (if list_ex (is_claim_row (ac_roomId a) (ac_questionIndex a)) (answerClaims d) then None
      else if rooms d (ac_roomId a) = None \<or> users d (ac_userId a) = None then None
      else Some (d\<lparr>answerClaims := answerClaims d @ [a]\<rparr>))"

text \<open>\<^verbatim>\<open>tx.roomParticipant.update\<close> with \<^verbatim>\<open>score: { increment: 1 }\<close>: fails when there is no such row.\<close>

definition roomParticipant_increment :: "database \<Rightarrow> room_id \<Rightarrow> user_id \<Rightarrow> database option" where
  "roomParticipant_increment d roomId userId =
     (if list_ex (is_participant_row roomId userId) (roomParticipants d)
      then Some (d\<lparr>roomParticipants :=
             map (\<lambda>p. if is_participant_row roomId userId p then p\<lparr>rp_score := rp_score p + 1\<rparr> else p)
               (roomParticipants d)\<rparr>)
      else None)"

text \<open>\<^verbatim>\<open>tx.roomParticipant.upsert\<close> with an empty update.\<close>

definition roomParticipant_upsert :: "database \<Rightarrow> room_id \<Rightarrow> user_id \<Rightarrow> database option" where
  "roomParticipant_upsert d roomId userId =
     (if list_ex (is_participant_row roomId userId) (roomParticipants d) then Some d
      else if rooms d roomId = None \<or> users d userId = None then None
      else Some (d\<lparr>roomParticipants :=
             roomParticipants d @ [\<lparr>rp_roomId = roomId, rp_userId = userId, rp_score = 0\<rparr>]\<rparr>))"

definition roomParticipant_deleteMany :: "database \<Rightarrow> room_id \<Rightarrow> user_id \<Rightarrow> database" where
  "roomParticipant_deleteMany d roomId userId =
     d\<lparr>roomParticipants := filter (\<lambda>p. \<not> is_participant_row roomId userId p) (roomParticipants d)\<rparr>"


text \<open>
  The transaction of a winning claim: both writes or none. \<^verbatim>\<open>None\<close> is a rollback.
\<close>

definition claim_transaction ::
  "database \<Rightarrow> millis \<Rightarrow> room_id \<Rightarrow> int \<Rightarrow> user_id \<Rightarrow> database option" where
  "claim_transaction d now roomId questionIndex userId =
     (case answerClaim_create d
             \<lparr>ac_roomId = roomId, ac_questionIndex = questionIndex, ac_userId = userId,
              ac_txHash = ''claim_'' @ roomId @ ''_'' @ toString_int questionIndex @ ''_''
                          @ toString_nat userId @ ''_'' @ toString_nat now\<rparr> of
        None \<Rightarrow> None
      | Some d1 \<Rightarrow> roomParticipant_increment d1 roomId userId)"

section \<open>Wire frames and sockets\<close>

datatype ws_error = WebSocketError nat string

record standing =
  st_userId :: user_id
  st_userName :: string
  st_score :: int
  st_newRating :: int

text \<open>
  Outbound frames. The timestamps of \<^verbatim>\<open>nextQuestion\<close> are kept as milliseconds (the
  source renders them with \<^verbatim>\<open>toISOString\<close>).
\<close>

datatype frame =
    Connected conn_id user_id
  | ErrorFrame nat string
  | JoinedRoom room_id
  | ParticipantJoined user_id string
  | ParticipantLeft user_id
  | QuizStarting room_id nat nat
  | NextQuestion int question millis millis
  | EndQuestion int int "user_id option"
  | QuizFinished "standing list"

datatype wsMessage =
    Join room_id
  | StartQuiz room_id
  | SubmitAnswer room_id int int
  | LeaveRoom room_id

text \<open>
  What \<^verbatim>\<open>JSON.parse\<close> followed by \<^verbatim>\<open>WebSocketMessageSchema.parse\<close> yields for a text.
\<close>

datatype decoded = SyntaxError | ZodError | Decoded wsMessage

datatype readyState = CONNECTING | OPEN | CLOSING | CLOSED

record ws =
  ws_userId :: "user_id option"
  ws_currentRoom :: "room_id option"
  ws_readyState :: readyState
  ws_sent :: "frame list"
  ws_closeArgs :: "(nat option \<times> string) option"

definition new_ws :: ws where
  "new_ws = \<lparr>ws_userId = None, ws_currentRoom = None, ws_readyState = OPEN, ws_sent = [],
             ws_closeArgs = None\<rparr>"

section \<open>The server state\<close>

text \<open>
  What a pending \<^verbatim>\<open>setTimeout\<close> will run. The \<^verbatim>\<open>NextTimer\<close> of question \<open>i\<close> asks
  question \<open>i + 1\<close> or finishes the quiz.
\<close>

datatype callback =
    ConnectionCleanupTimeout conn_id
  | StartTimer room_id
  | QuestionTimer room_id int
  | NextTimer room_id int

record roomTimer =
  rt_timer :: nat
  rt_questionIndex :: int
  rt_roomId :: room_id

text \<open>
  The module-level maps of the server keep their names. A socket object is addressed by
  its \<^verbatim>\<open>connectionId\<close>. \<^verbatim>\<open>timers\<close> is an association list in insertion order, because
  the room cleanup enumerates its keys. \<open>timeouts\<close> are the timeouts armed in the runtime
  (handle, due time, callback), which are not the same as the handles remembered in
  \<^verbatim>\<open>timers\<close>. \<open>pendingLeave\<close> holds the calls of \<^verbatim>\<open>handleLeaveRoom\<close> that
  \<^verbatim>\<open>cleanupConnection\<close> started without awaiting them. \<open>errorLog\<close> collects
  \<^verbatim>\<open>console.error\<close>.
\<close>

record state =
  sockets :: "conn_id \<Rightarrow> ws"
  roomSockets :: "room_id \<Rightarrow> conn_id list option"
  questionsCache :: "room_id \<Rightarrow> (question list \<times> millis) option"
  timers :: "(string \<times> roomTimer) list"
  userConnections :: "user_id \<Rightarrow> conn_id list option"
  connectionCleanup :: "conn_id \<Rightarrow> nat option"
  rateLimitMap :: "user_id \<Rightarrow> (nat \<times> millis) option"
  redis :: redis_store
  prisma :: database
  timeouts :: "nat \<Rightarrow> (millis \<times> callback) option"
  nextHandle :: nat
  pendingLeave :: "(conn_id \<times> room_id) list"
  errorLog :: "string list"

definition empty_database :: database where
  "empty_database = \<lparr>users = Map.empty, rooms = Map.empty, roomParticipants = [], questions = [],
                      answerClaims = [], playerRatings = Map.empty\<rparr>"

definition initial_state :: "database \<Rightarrow> state" where
  "initial_state d =
     \<lparr>sockets = (\<lambda>_. new_ws\<lparr>ws_readyState := CLOSED\<rparr>), roomSockets = Map.empty,
      questionsCache = Map.empty, timers = [], userConnections = Map.empty,
      connectionCleanup = Map.empty, rateLimitMap = Map.empty, redis = Map.empty, prisma = d,
      timeouts = Map.empty, nextHandle = 0, pendingLeave = [], errorLog = []\<rparr>"

definition update_ws :: "state \<Rightarrow> conn_id \<Rightarrow> (ws \<Rightarrow> ws) \<Rightarrow> state" where
  "update_ws s c f = s\<lparr>sockets := (sockets s)(c := f (sockets s c))\<rparr>"

definition console_error :: "state \<Rightarrow> string \<Rightarrow> state" where
  "console_error s msg = s\<lparr>errorLog := errorLog s @ [msg]\<rparr>"

definition sendResponse :: "state \<Rightarrow> conn_id \<Rightarrow> frame \<Rightarrow> state" where
  "sendResponse s c response =
     (if ws_readyState (sockets s c) = OPEN
      then update_ws s c (\<lambda>w. w\<lparr>ws_sent := ws_sent w @ [response]\<rparr>)
      else s)"

definition sendError :: "state \<Rightarrow> conn_id \<Rightarrow> nat \<Rightarrow> string \<Rightarrow> state" where
  "sendError s c code message = sendResponse s c (ErrorFrame code message)"

definition ws_close :: "state \<Rightarrow> conn_id \<Rightarrow> nat option \<Rightarrow> string \<Rightarrow> state" where
  "ws_close s c code reason =
     (if ws_readyState (sockets s c) = OPEN
      then update_ws s c (\<lambda>w. w\<lparr>ws_readyState := CLOSING, ws_closeArgs := Some (code, reason)\<rparr>)
      else s)"

definition setTimeout :: "state \<Rightarrow> millis \<Rightarrow> nat \<Rightarrow> callback \<Rightarrow> nat \<times> state" where
  "setTimeout s now delay cb =
     (nextHandle s,
      s\<lparr>timeouts := (timeouts s)(nextHandle s \<mapsto> (now + delay, cb)),
        nextHandle := Suc (nextHandle s)\<rparr>)"

definition clearTimeout :: "state \<Rightarrow> nat \<Rightarrow> state" where
  "clearTimeout s h = s\<lparr>timeouts := (timeouts s)(h := None)\<rparr>"

definition timers_set :: "state \<Rightarrow> string \<Rightarrow> roomTimer \<Rightarrow> state" where
  "timers_set s key rt = s\<lparr>timers := AList.update key rt (timers s)\<rparr>"

definition timers_delete :: "state \<Rightarrow> string \<Rightarrow> state" where
  "timers_delete s key = s\<lparr>timers := AList.delete key (timers s)\<rparr>"

section \<open>Rate limiting\<close>

definition checkRateLimit :: "state \<Rightarrow> user_id \<Rightarrow> millis \<Rightarrow> bool \<times> state" where
  "checkRateLimit s userId now =
     (case rateLimitMap s userId of
        None \<Rightarrow> (True, s\<lparr>rateLimitMap := (rateLimitMap s)(userId \<mapsto> (1, now + RATE_LIMIT_WINDOW))\<rparr>)
      | Some (cnt, resetTime) \<Rightarrow>
          if now > resetTime
          then (True, s\<lparr>rateLimitMap := (rateLimitMap s)(userId \<mapsto> (1, now + RATE_LIMIT_WINDOW))\<rparr>)
          else if cnt \<ge> RATE_LIMIT_MAX then (False, s)
          else (True, s\<lparr>rateLimitMap := (rateLimitMap s)(userId \<mapsto> (cnt + 1, resetTime))\<rparr>))"

section \<open>Connections, rooms and broadcast\<close>

text \<open>
  \<^verbatim>\<open>cleanupConnection\<close>, in its four steps. A user id of 0 is falsy, as is an empty
  connection id.
\<close>

definition clear_cleanup_timeout :: "state \<Rightarrow> conn_id \<Rightarrow> state" where
  "clear_cleanup_timeout s c =
     (if c \<noteq> [] then
        (case connectionCleanup s c of
           Some h \<Rightarrow> (clearTimeout s h)\<lparr>connectionCleanup := (connectionCleanup s)(c := None)\<rparr>
         | None \<Rightarrow> s)
      else s)"

text \<open>
  The call \<^verbatim>\<open>handleLeaveRoom(ws).catch(console.error)\<close> is not awaited: it reads the room
  and the user at once and does the rest after its first \<^verbatim>\<open>await\<close>, so the rest is queued
  in \<open>pendingLeave\<close>.
\<close>

definition start_leaveRoom :: "state \<Rightarrow> conn_id \<Rightarrow> state" where
  "start_leaveRoom s c =
     (case ws_currentRoom (sockets s c) of
        Some roomId \<Rightarrow>
          if roomId \<noteq> [] \<and> ws_userId (sockets s c) \<noteq> None \<and> ws_userId (sockets s c) \<noteq> Some 0
          then s\<lparr>pendingLeave := pendingLeave s @ [(c, roomId)]\<rparr>
          else s
      | None \<Rightarrow> s)"

definition untrack_connection :: "state \<Rightarrow> conn_id \<Rightarrow> state" where
  "untrack_connection s c =
     (case ws_userId (sockets s c) of
        Some userId \<Rightarrow>
          if userId \<noteq> 0 \<and> c \<noteq> [] then
            (case userConnections s userId of
               Some userConns \<Rightarrow>
                 if set_delete c userConns = []
                 then s\<lparr>userConnections := (userConnections s)(userId := None)\<rparr>
                 else s\<lparr>userConnections := (userConnections s)(userId \<mapsto> set_delete c userConns)\<rparr>
             | None \<Rightarrow> s)
          else s
      | None \<Rightarrow> s)"

definition cleanupConnection :: "state \<Rightarrow> conn_id \<Rightarrow> state" where
  "cleanupConnection s c =
     ws_close (untrack_connection (start_leaveRoom (clear_cleanup_timeout s c) c) c) c None []"

text \<open>
  \<^verbatim>\<open>broadcastToRoom\<close>: every open socket of the room gets the frame; the others are
  removed from the room's set and cleaned up. (A \<^verbatim>\<open>send\<close> on an open socket is taken to
  succeed.) \<^verbatim>\<open>cleanupConnection\<close> does not read \<^verbatim>\<open>roomSockets\<close>, so the removals are
  done before the cleanups.
\<close>

definition broadcastToRoom :: "state \<Rightarrow> room_id \<Rightarrow> frame \<Rightarrow> state" where
  "broadcastToRoom s roomId message =
     (case roomSockets s roomId of
        None \<Rightarrow> s
      | Some socks \<Rightarrow>
          if socks = [] then s
          else
            let is_open = (\<lambda>c. ws_readyState (sockets s c) = OPEN);
                s1 = s\<lparr>sockets := (\<lambda>c. if c \<in> set socks \<and> is_open c
                                        then (sockets s c)\<lparr>ws_sent := ws_sent (sockets s c) @ [message]\<rparr>
                                        else sockets s c)\<rparr>;
                deadSockets = filter (\<lambda>c. \<not> is_open c) socks;
                s2 = s1\<lparr>roomSockets := (roomSockets s1)(roomId \<mapsto> filter is_open socks)\<rparr>
            in fold (\<lambda>c s'. cleanupConnection s' c) deadSockets s2)"

text \<open>
  \<^verbatim>\<open>cleanupRoomData\<close>. A timer is cleared when its key starts with the room id and a colon.
\<close>

definition room_keysToDelete :: "room_id \<Rightarrow> string list" where
  "room_keysToDelete roomId =
     [key_currentQuestion roomId, key_participants roomId, key_startTime roomId]
     @ concat (map (\<lambda>i. [key_firstUser roomId (int i), key_expired roomId (int i)])
                 [0 ..< QUESTIONS_PER_QUIZ])"

definition clear_room_timer :: "string \<Rightarrow> state \<Rightarrow> state" where
  "clear_room_timer key s =
     (case map_of (timers s) key of
        Some roomTimer \<Rightarrow> timers_delete (clearTimeout s (rt_timer roomTimer)) key
      | None \<Rightarrow> s)"

definition cleanupRoomData :: "state \<Rightarrow> room_id \<Rightarrow> state" where
  "cleanupRoomData s roomId =
     (let s1 = s\<lparr>questionsCache := (questionsCache s)(roomId := None)\<rparr>;
          timerKeys = filter (prefix (roomId @ '':'')) (map fst (timers s1));
          s2 = fold clear_room_timer timerKeys s1
      in s2\<lparr>redis := redis_del (redis s2) (room_keysToDelete roomId)\<rparr>)"


section \<open>Leaving and joining a room\<close>

text \<open>
  The part of \<^verbatim>\<open>handleLeaveRoom\<close> after the room id and the user id are known. Its
  \<^verbatim>\<open>catch\<close> only logs, so what was done before an error stays done.
\<close>

definition leaveRoom_body :: "state \<Rightarrow> conn_id \<Rightarrow> millis \<Rightarrow> user_id \<Rightarrow> room_id \<Rightarrow> state" where
  "leaveRoom_body s c now userId roomId =
     (let s1 = s\<lparr>prisma := roomParticipant_deleteMany (prisma s) roomId userId\<rparr>
      in case redis_srem (redis s1) now (key_participants roomId) (toString_nat userId) of
           Inl _ \<Rightarrow> console_error s1 ''Error leaving room''
         | Inr r \<Rightarrow>
             let s2 = s1\<lparr>redis := r\<rparr>;
                 s3 = (case roomSockets s2 roomId of
                         None \<Rightarrow> s2
                       | Some roomWs \<Rightarrow>
                           if set_delete c roomWs = []
                           then cleanupRoomData (s2\<lparr>roomSockets := (roomSockets s2)(roomId := None)\<rparr>) roomId
                           else s2\<lparr>roomSockets := (roomSockets s2)(roomId \<mapsto> set_delete c roomWs)\<rparr>);
                 s4 = update_ws s3 c (\<lambda>w. w\<lparr>ws_currentRoom := None\<rparr>)
             in broadcastToRoom s4 roomId (ParticipantLeft userId))"

definition handleLeaveRoom :: "state \<Rightarrow> conn_id \<Rightarrow> millis \<Rightarrow> room_id option \<Rightarrow> state" where
  "handleLeaveRoom s c now payload =
     (let roomId = (if truthy payload then payload else ws_currentRoom (sockets s c))
      in case roomId of
           None \<Rightarrow> s
         | Some r \<Rightarrow>
             (case ws_userId (sockets s c) of
                None \<Rightarrow> s
              | Some userId \<Rightarrow> if r = [] \<or> userId = 0 then s else leaveRoom_body s c now userId r))"

text \<open>A leave started by \<^verbatim>\<open>cleanupConnection\<close> runs later, in any order.\<close>

definition run_pendingLeave :: "state \<Rightarrow> millis \<Rightarrow> nat \<Rightarrow> state" where
  "run_pendingLeave s now i =
     (if i < length (pendingLeave s) then
        (let (c, roomId) = pendingLeave s ! i;
             s1 = s\<lparr>pendingLeave := take i (pendingLeave s) @ drop (Suc i) (pendingLeave s)\<rparr>
         in case ws_userId (sockets s1 c) of
              None \<Rightarrow> s1
            | Some userId \<Rightarrow> leaveRoom_body s1 c now userId roomId)
      else s)"

text \<open>
  The transaction of \<^verbatim>\<open>handleJoinRoom\<close>. \<^verbatim>\<open>Inl (Some e)\<close> is a thrown
  \<^verbatim>\<open>WebSocketError\<close>, \<^verbatim>\<open>Inl None\<close> any other error; both roll back.
\<close>

definition join_transaction :: "database \<Rightarrow> room_id \<Rightarrow> user_id \<Rightarrow> ws_error option + database" where
  "join_transaction d roomId userId =
     (case rooms d roomId of
        None \<Rightarrow> Inl (Some (WebSocketError 404 ''Room not found or inactive''))
      | Some room \<Rightarrow>
          if \<not> room_isActive room then Inl (Some (WebSocketError 404 ''Room not found or inactive''))
          else if length (filter (\<lambda>p. rp_roomId p = roomId) (roomParticipants d)) \<ge> room_maxPlayers room
          then Inl (Some (WebSocketError 400 ''Room is full''))
          else
            (case find (\<lambda>p. rp_userId p = userId) (roomParticipants d) of
               Some existingParticipant \<Rightarrow>
                 if rp_roomId existingParticipant \<noteq> roomId then
                   (case rooms d (rp_roomId existingParticipant) of
                      Some other \<Rightarrow>
                        Inl (Some (WebSocketError 400
                          (''Already in Room: '' @ room_name other @ '' (ID: ''
                           @ rp_roomId existingParticipant @ '')'')))
                    | None \<Rightarrow> Inl None)
                 else (case roomParticipant_upsert d roomId userId of Some d' \<Rightarrow> Inr d' | None \<Rightarrow> Inl None)
             | None \<Rightarrow>
                 (case roomParticipant_upsert d roomId userId of Some d' \<Rightarrow> Inr d' | None \<Rightarrow> Inl None)))"

definition name_or_anonymous :: "string option \<Rightarrow> string" where
  "name_or_anonymous n = (case n of None \<Rightarrow> ''Anonymous'' | Some v \<Rightarrow> if v = [] then ''Anonymous'' else v)"

definition handleJoinRoom :: "state \<Rightarrow> conn_id \<Rightarrow> millis \<Rightarrow> room_id \<Rightarrow> ws_error option \<times> state" where
  "handleJoinRoom s c now roomId =
     (if roomId = [] \<or> length roomId > 50 then (Some (WebSocketError 400 ''Invalid room ID''), s)
      else
        (case ws_userId (sockets s c) of
          None \<Rightarrow> (Some (WebSocketError 500 ''Failed to join room''), console_error s ''Error joining room'')
        | Some userId \<Rightarrow>
            (case join_transaction (prisma s) roomId userId of
               Inl (Some e) \<Rightarrow> (Some e, s)
             | Inl None \<Rightarrow> (Some (WebSocketError 500 ''Failed to join room''), console_error s ''Error joining room'')
             | Inr d \<Rightarrow>
                 let s1 = s\<lparr>prisma := d\<rparr>
                 in (case redis_sadd (redis s1) now (key_participants roomId) (toString_nat userId) of
                      Inl _ \<Rightarrow> (Some (WebSocketError 500 ''Failed to join room''),
                                console_error s1 ''Error joining room'')
                    | Inr r \<Rightarrow>
                        let s2 = s1\<lparr>redis := redis_expire r now (key_participants roomId) REDIS_TTL\<rparr>;
                            roomWs = (case roomSockets s2 roomId of None \<Rightarrow> [] | Some l \<Rightarrow> l);
                            s3 = s2\<lparr>roomSockets := (roomSockets s2)(roomId \<mapsto> set_add c roomWs)\<rparr>;
                            s4 = update_ws s3 c (\<lambda>w. w\<lparr>ws_currentRoom := Some roomId\<rparr>);
                            userName = (case users (prisma s4) userId of
                                          None \<Rightarrow> ''Anonymous''
                                        | Some u \<Rightarrow> name_or_anonymous (user_name u));
                            s5 = broadcastToRoom s4 roomId (ParticipantJoined userId userName)
                        in (None, sendResponse s5 c (JoinedRoom roomId))))))"

section \<open>The quiz\<close>

datatype orderDir = Asc | Desc

text \<open>
  \<^verbatim>\<open>handleStartQuiz\<close>. \<open>rnd\<close> is \<^verbatim>\<open>Math.floor(Math.random() * (questionCount - 10))\<close>
  and \<open>orderDir\<close> the outcome of the second draw.
\<close>

definition handleStartQuiz ::
  "state \<Rightarrow> conn_id \<Rightarrow> millis \<Rightarrow> room_id \<Rightarrow> nat \<Rightarrow> orderDir \<Rightarrow> ws_error option \<times> state" where
  "handleStartQuiz s c now roomId rnd dir =
     (if roomId = [] then (Some (WebSocketError 400 ''Invalid room ID''), s)
      else
        case rooms (prisma s) roomId of
          None \<Rightarrow> (Some (WebSocketError 403 ''Only room host can start quiz''), s)
        | Some room \<Rightarrow>
            if Some (room_hostId room) \<noteq> ws_userId (sockets s c)
            then (Some (WebSocketError 403 ''Only room host can start quiz''), s)
            else
              (case redis_get (redis s) now (key_currentQuestion roomId) of
                 Inl _ \<Rightarrow> (Some (WebSocketError 500 ''Failed to start quiz''),
                           console_error s ''Error starting quiz'')
               | Inr (Some _) \<Rightarrow> (Some (WebSocketError 409 ''Quiz already in progress''), s)
               | Inr None \<Rightarrow>
                   if length (questions (prisma s)) < QUESTIONS_PER_QUIZ
                   then (Some (WebSocketError 500 ''Not enough questions available''), s)
                   else
                     let skip = max 0 rnd;
                         ordered = (case dir of
                                      Asc \<Rightarrow> sort_key q_id (questions (prisma s))
                                    | Desc \<Rightarrow> rev (sort_key q_id (questions (prisma s))));
                         qs = take QUESTIONS_PER_QUIZ (drop skip ordered);
                         s1 = s\<lparr>questionsCache := (questionsCache s)(roomId \<mapsto> (qs, now))\<rparr>;
                         r1 = redis_set (redis s1) (key_currentQuestion roomId) ''-1'';
                         r2 = redis_expire r1 now (key_currentQuestion roomId) REDIS_TTL;
                         r3 = redis_set r2 (key_startTime roomId) (toString_nat now);
                         r4 = redis_expire r3 now (key_startTime roomId) REDIS_TTL;
                         s2 = s1\<lparr>redis := r4\<rparr>;
                         s3 = broadcastToRoom s2 roomId
                                (QuizStarting roomId QUIZ_START_DELAY QUESTIONS_PER_QUIZ);
                         (h, s4) = setTimeout s3 now QUIZ_START_DELAY (StartTimer roomId)
                     in (None, timers_set s4 (roomId @ '':start'')
                                 \<lparr>rt_timer = h, rt_questionIndex = - 1, rt_roomId = roomId\<rparr>)))"

text \<open>\<^verbatim>\<open>questionData?.questions[questionIndex]\<close>: \<^verbatim>\<open>undefined\<close> outside the array.\<close>

definition cached_question :: "state \<Rightarrow> room_id \<Rightarrow> int \<Rightarrow> question option" where
  "cached_question s roomId questionIndex =
     (case questionsCache s roomId of
        None \<Rightarrow> None
      | Some (qs, _) \<Rightarrow>
          if 0 \<le> questionIndex \<and> nat questionIndex < length qs then Some (qs ! nat questionIndex)
          else None)"

text \<open>
  Arming the timer that follows \<^verbatim>\<open>endQuestion\<close>; the same lines end
  \<^verbatim>\<open>handleSubmitAnswer\<close> and \<^verbatim>\<open>handleQuestionExpiry\<close>.
\<close>

definition schedule_next :: "state \<Rightarrow> millis \<Rightarrow> room_id \<Rightarrow> int \<Rightarrow> state" where
  "schedule_next s now roomId questionIndex =
     (let (h, s1) = setTimeout s now NEXT_QUESTION_DELAY (NextTimer roomId questionIndex)
      in timers_set s1 (roomId @ '':next-'' @ toString_int questionIndex)
           \<lparr>rt_timer = h, rt_questionIndex = questionIndex + 1, rt_roomId = roomId\<rparr>)"

text \<open>
  \<^verbatim>\<open>handleSubmitAnswer\<close> once the first-correct key has been claimed: the transaction
  (its failure is logged and nothing else), the question timer, the broadcast and the
  next timer.
\<close>

definition record_winner :: "state \<Rightarrow> millis \<Rightarrow> room_id \<Rightarrow> int \<Rightarrow> user_id \<Rightarrow> question \<Rightarrow> state" where
  "record_winner s now roomId questionIndex userId currentQuestionObj =
     (let s1 = (case claim_transaction (prisma s) now roomId questionIndex userId of
                  Some d \<Rightarrow> s\<lparr>prisma := d\<rparr>
                | None \<Rightarrow> console_error s ''Database error recording answer'');
          s2 = clear_room_timer (roomId @ '':'' @ toString_int questionIndex) s1;
          s3 = broadcastToRoom s2 roomId
                 (EndQuestion questionIndex (q_correctIdx currentQuestionObj) (Some userId))
      in schedule_next s3 now roomId questionIndex)"

text \<open>
  \<^verbatim>\<open>handleSubmitAnswer\<close> after the question state has been read: marking the user as
  having answered, the correctness check and the claim.
\<close>

definition answer_and_claim ::
  "state \<Rightarrow> millis \<Rightarrow> room_id \<Rightarrow> int \<Rightarrow> int \<Rightarrow> user_id \<Rightarrow> ws_error option \<times> state" where
  "answer_and_claim s now roomId questionIndex choiceIdx userId =
     (let (setResult, r1) =
            redis_set_ex_nx (redis s) now (key_answered roomId questionIndex userId) ''1'' REDIS_TTL;
          s1 = s\<lparr>redis := r1\<rparr>
      in if \<not> setResult then (None, s1)
         else
           case cached_question s1 roomId questionIndex of
             None \<Rightarrow> (Some (WebSocketError 500 ''Question not found''), s1)
           | Some currentQuestionObj \<Rightarrow>
               if q_correctIdx currentQuestionObj \<noteq> choiceIdx then (None, s1)
               else
                 let (claimResult, r2) =
                       redis_set_ex_nx (redis s1) now (key_firstUser roomId questionIndex)
                         (toString_nat userId) REDIS_TTL;
                     s2 = s1\<lparr>redis := r2\<rparr>
                 in if \<not> claimResult then (None, s2)
                    else (None, record_winner s2 now roomId questionIndex userId currentQuestionObj))"

definition handleSubmitAnswer ::
  "state \<Rightarrow> conn_id \<Rightarrow> millis \<Rightarrow> room_id \<Rightarrow> int \<Rightarrow> int \<Rightarrow> ws_error option \<times> state" where
  "handleSubmitAnswer s c now roomId questionIndex choiceIdx =
     (if roomId = [] then (Some (WebSocketError 400 ''Invalid room ID''), s)
      else if questionIndex < 0 \<or> questionIndex \<ge> int QUESTIONS_PER_QUIZ
      then (Some (WebSocketError 400 ''Invalid question index''), s)
      else if choiceIdx < 0 \<or> choiceIdx > 3 then (Some (WebSocketError 400 ''Invalid choice index''), s)
      else if ws_currentRoom (sockets s c) \<noteq> Some roomId
      then (Some (WebSocketError 403 ''Not in this room''), s)
      else
        case ws_userId (sockets s c) of
          None \<Rightarrow> (Some (WebSocketError 500 ''Failed to submit answer''),
                    console_error s ''Error submitting answer'')
        | Some userId \<Rightarrow>
            (case redis_sismember (redis s) now (key_participants roomId) (toString_nat userId) of
               Inl _ \<Rightarrow> (Some (WebSocketError 500 ''Failed to submit answer''),
                         console_error s ''Error submitting answer'')
             | Inr False \<Rightarrow> (Some (WebSocketError 403 ''Not a participant in this room''), s)
             | Inr True \<Rightarrow>
                 (case (redis_get (redis s) now (key_currentQuestion roomId),
                        redis_get (redis s) now (key_answered roomId questionIndex userId)) of
                    (Inr currentQuestion, Inr hasAnswered) \<Rightarrow>
                      if currentQuestion \<noteq> Some (toString_int questionIndex)
                      then (Some (WebSocketError 409 ''Question no longer active''), s)
                      else if redis_exists (redis s) now (key_expired roomId questionIndex)
                      then (Some (WebSocketError 410 ''Question has expired''), s)
                      else if truthy hasAnswered then (None, s)
                      else answer_and_claim s now roomId questionIndex choiceIdx userId
                  | _ \<Rightarrow> (Some (WebSocketError 500 ''Failed to verify question state''), s))))"

definition handleQuestionExpiry :: "state \<Rightarrow> millis \<Rightarrow> room_id \<Rightarrow> int \<Rightarrow> state" where
  "handleQuestionExpiry s now roomId questionIndex =
     (case cached_question s roomId questionIndex of
        None \<Rightarrow> s
      | Some q \<Rightarrow>
          if redis_exists (redis s) now (key_firstUser roomId questionIndex) then s
          else
            let s1 = s\<lparr>redis := redis_set_ex (redis s) now (key_expired roomId questionIndex) ''1'' REDIS_TTL\<rparr>;
                s2 = broadcastToRoom s1 roomId (EndQuestion questionIndex (q_correctIdx q) None)
            in schedule_next s2 now roomId questionIndex)"

definition handleNextQuestion :: "state \<Rightarrow> millis \<Rightarrow> room_id \<Rightarrow> int \<Rightarrow> state" where
  "handleNextQuestion s now roomId questionIndex =
     (case cached_question s roomId questionIndex of
        None \<Rightarrow> console_error s ''Question not found for room''
      | Some q \<Rightarrow>
          let s1 = s\<lparr>redis := redis_set_ex (redis s) now (key_currentQuestion roomId)
                                (toString_int questionIndex) REDIS_TTL\<rparr>;
              startedAt = now;
              expiresAt = startedAt + QUESTION_TIME_LIMIT;
              s2 = broadcastToRoom s1 roomId (NextQuestion questionIndex q startedAt expiresAt);
              (h, s3) = setTimeout s2 now QUESTION_TIME_LIMIT (QuestionTimer roomId questionIndex)
          in timers_set s3 (roomId @ '':'' @ toString_int questionIndex)
               \<lparr>rt_timer = h, rt_questionIndex = questionIndex, rt_roomId = roomId\<rparr>)"


section \<open>Final standings\<close>

text \<open>
  The rating transaction of one participant: \<^verbatim>\<open>(currentRating?.rating || 1200) + score * 10\<close>,
  written back by upsert. An insert needs the user row (foreign key). The result is the new
  store and the stored rating, or \<^verbatim>\<open>None\<close> for a rollback.
\<close>

definition rating_transaction :: "database \<Rightarrow> user_id \<Rightarrow> int \<Rightarrow> (database \<times> int) option" where
  "rating_transaction d userId score =
     (let newRating = (case playerRatings d userId of
                         None \<Rightarrow> 1200
                       | Some rating \<Rightarrow> if rating = 0 then 1200 else rating) + score * 10
      in if playerRatings d userId = None \<and> users d userId = None then None
         else Some (d\<lparr>playerRatings := (playerRatings d)(userId \<mapsto> newRating)\<rparr>, newRating))"

text \<open>
  One participant of \<^verbatim>\<open>handleQuizFinished\<close>. \<open>txFails\<close> tells for which users the
  transaction is made to fail from outside (connection loss, serialization failure); the
  standing then carries the fallback rating and nothing is stored.
\<close>

definition rate_participant ::
  "(user_id \<Rightarrow> bool) \<Rightarrow> roomParticipant \<times> user \<Rightarrow> state \<Rightarrow> standing \<times> state" where
  "rate_participant txFails pu s =
     (let p = fst pu;
          userName = name_or_anonymous (user_name (snd pu));
          fallback = \<lparr>st_userId = rp_userId p, st_userName = userName, st_score = rp_score p,
                      st_newRating = 1200 + rp_score p * 10\<rparr>
      in if txFails (rp_userId p) then (fallback, console_error s ''Error updating rating for user'')
         else
           case rating_transaction (prisma s) (rp_userId p) (rp_score p) of
             None \<Rightarrow> (fallback, console_error s ''Error updating rating for user'')
           | Some (d, rating) \<Rightarrow>
               (\<lparr>st_userId = rp_userId p, st_userName = userName, st_score = rp_score p,
                 st_newRating = rating\<rparr>,
                s\<lparr>prisma := d\<rparr>))"

fun rate_participants ::
  "(user_id \<Rightarrow> bool) \<Rightarrow> (roomParticipant \<times> user) list \<Rightarrow> state \<Rightarrow> standing list \<times> state" where
  "rate_participants txFails [] s = ([], s)"
| "rate_participants txFails (pu # ps) s =
     (let (st, s1) = rate_participant txFails pu s;
          (rest, s2) = rate_participants txFails ps s1
      in (st # rest, s2))"

text \<open>
  \<^verbatim>\<open>handleQuizFinished\<close>. \<open>fetched\<close> is what
  \<^verbatim>\<open>roomParticipant.findMany({ where: { roomId }, include: { user: true }, orderBy: { score: 'desc' } })\<close>
  returned, or \<^verbatim>\<open>None\<close> when the query threw.
\<close>

definition handleQuizFinished ::
  "state \<Rightarrow> room_id \<Rightarrow> (roomParticipant \<times> user) list option \<Rightarrow> (user_id \<Rightarrow> bool) \<Rightarrow> state" where
  "handleQuizFinished s roomId fetched txFails =
     (case fetched of
        None \<Rightarrow> cleanupRoomData (console_error s ''Error finishing quiz'') roomId
      | Some participants \<Rightarrow>
          let (standings, s1) = rate_participants txFails participants s;
              s2 = broadcastToRoom s1 roomId (QuizFinished standings)
          in cleanupRoomData s2 roomId)"

text \<open>
  What the store promises for that query: the rows of the room, each with its user, in an
  order that is descending in the score. The order among equal scores is the store's choice.
\<close>

definition findMany_byScoreDesc :: "database \<Rightarrow> room_id \<Rightarrow> (roomParticipant \<times> user) list \<Rightarrow> bool" where
  "findMany_byScoreDesc d roomId res =
     (mset (map fst res) = mset (filter (\<lambda>p. rp_roomId p = roomId) (roomParticipants d))
      \<and> sorted_wrt (\<lambda>a b. rp_score a \<ge> rp_score b) (map fst res)
      \<and> list_all (\<lambda>pu. users d (rp_userId (fst pu)) = Some (snd pu)) res)"

section \<open>Periodic cleanup\<close>

definition cleanupStaleData :: "state \<Rightarrow> millis \<Rightarrow> state" where
  "cleanupStaleData s now =
     s\<lparr>questionsCache :=
         (\<lambda>roomId. case questionsCache s roomId of
                      None \<Rightarrow> None
                    | Some (qs, timestamp) \<Rightarrow>
                        if now > timestamp + 30 * 60 * 1000 then None else Some (qs, timestamp)),
       rateLimitMap :=
         (\<lambda>userId. case rateLimitMap s userId of
                      None \<Rightarrow> None
                    | Some (cnt, resetTime) \<Rightarrow>
                        if now > resetTime + 60000 then None else Some (cnt, resetTime)),
       userConnections :=
         (\<lambda>userId. case userConnections s userId of
                      None \<Rightarrow> None
                    | Some connections \<Rightarrow> if connections = [] then None else Some connections)\<rparr>"

section \<open>Connections and messages\<close>

text \<open>
  The \<^verbatim>\<open>connection\<close> handler for a socket that the library hands over open under the
  given connection id. \<open>token\<close> is the bearer token found in the header or the query;
  \<open>verifySessionToken\<close> yields the user id (\<^verbatim>\<open>parseInt(session.sub)\<close>) of a valid token.
\<close>

definition on_connection ::
  "state \<Rightarrow> conn_id \<Rightarrow> millis \<Rightarrow> string option \<Rightarrow> (string \<Rightarrow> user_id option) \<Rightarrow> state" where
  "on_connection s c now token verifySessionToken =
     (let s0 = s\<lparr>sockets := (sockets s)(c := new_ws)\<rparr>
      in (case token of
           None \<Rightarrow> ws_close (sendError s0 c 401 ''Missing authentication token'') c (Some 1008) ''Missing token''
         | Some tok \<Rightarrow>
             if tok = [] then
               ws_close (sendError s0 c 401 ''Missing authentication token'') c (Some 1008) ''Missing token''
             else
               (case verifySessionToken tok of
                 None \<Rightarrow> ws_close (sendError s0 c 401 ''Invalid or expired token'') c (Some 1008) ''Invalid token''
               | Some userId \<Rightarrow>
                   let userConns = (case userConnections s0 userId of None \<Rightarrow> [] | Some l \<Rightarrow> l)
                   in if length userConns \<ge> MAX_CONNECTIONS_PER_USER then
                        ws_close (sendError s0 c 429 ''Too many connections for this user'') c
                          (Some 1008) ''Connection limit exceeded''
                      else
                        let s1 = update_ws s0 c (\<lambda>w. w\<lparr>ws_userId := Some userId, ws_currentRoom := None\<rparr>);
                            s2 = s1\<lparr>userConnections := (userConnections s1)(userId \<mapsto> set_add c userConns)\<rparr>;
                            (h, s3) = setTimeout s2 now (REDIS_TTL * 1000) (ConnectionCleanupTimeout c);
                            s4 = s3\<lparr>connectionCleanup := (connectionCleanup s3)(c \<mapsto> h)\<rparr>
                        in sendResponse s4 c (Connected c userId))))"

definition handleMessage ::
  "state \<Rightarrow> conn_id \<Rightarrow> millis \<Rightarrow> wsMessage \<Rightarrow> nat \<Rightarrow> orderDir \<Rightarrow> ws_error option \<times> state" where
  "handleMessage s c now message rnd dir =
     (if ws_userId (sockets s c) = None \<or> ws_userId (sockets s c) = Some 0
      then (Some (WebSocketError 401 ''User not authenticated''), s)
      else
        case message of
          Join roomId \<Rightarrow> handleJoinRoom s c now roomId
        | StartQuiz roomId \<Rightarrow> handleStartQuiz s c now roomId rnd dir
        | SubmitAnswer roomId questionIndex choiceIdx \<Rightarrow>
            handleSubmitAnswer s c now roomId questionIndex choiceIdx
        | LeaveRoom roomId \<Rightarrow> (None, handleLeaveRoom s c now (Some roomId)))"

text \<open>
  The \<^verbatim>\<open>message\<close> handler of an attached socket, for the text \<open>data\<close> of a frame.
  \<open>decode\<close> stands for the JSON parser and the schema.
\<close>

definition on_message ::
  "state \<Rightarrow> conn_id \<Rightarrow> millis \<Rightarrow> string \<Rightarrow> (string \<Rightarrow> decoded) \<Rightarrow> nat \<Rightarrow> orderDir \<Rightarrow> state" where
  "on_message s c now message decode rnd dir =
     (case ws_userId (sockets s c) of
        None \<Rightarrow> s
      | Some userId \<Rightarrow>
          let (admitted, s1) = checkRateLimit s userId now
          in if \<not> admitted then sendError s1 c 429 ''Rate limit exceeded''
             else if length message > 1024 then sendError s1 c 413 ''Message too large''
             else
               (case decode message of
                 SyntaxError \<Rightarrow> sendError s1 c 400 ''Invalid JSON format''
               | ZodError \<Rightarrow>
                   sendError (console_error s1 ''Unexpected error handling message'') c 500
                     ''Internal server error''
               | Decoded validatedMessage \<Rightarrow>
                   (case handleMessage s1 c now validatedMessage rnd dir of
                      (None, s2) \<Rightarrow> s2
                    | (Some (WebSocketError code msg), s2) \<Rightarrow> sendError s2 c code msg)))"

text \<open>
  A timeout fires at or after its due time, once. The \<^verbatim>\<open>NextTimer\<close> callback chooses
  between the next question and the end of the quiz.
\<close>

definition fire_timeout ::
  "state \<Rightarrow> millis \<Rightarrow> nat \<Rightarrow> (roomParticipant \<times> user) list option \<Rightarrow> (user_id \<Rightarrow> bool) \<Rightarrow> state" where
  "fire_timeout s now h fetched txFails =
     (case timeouts s h of
        None \<Rightarrow> s
      | Some (due, cb) \<Rightarrow>
          if now < due then s
          else
            let s1 = s\<lparr>timeouts := (timeouts s)(h := None)\<rparr>
            in (case cb of
                 ConnectionCleanupTimeout c \<Rightarrow> cleanupConnection s1 c
               | StartTimer roomId \<Rightarrow> handleNextQuestion s1 now roomId 0
               | QuestionTimer roomId questionIndex \<Rightarrow> handleQuestionExpiry s1 now roomId questionIndex
               | NextTimer roomId questionIndex \<Rightarrow>
                   if questionIndex < int QUESTIONS_PER_QUIZ - 1
                   then handleNextQuestion s1 now roomId (questionIndex + 1)
                   else handleQuizFinished s1 roomId fetched txFails))"

text \<open>The states the server can be in: any sequence of events from the start.\<close>

inductive reachable :: "state \<Rightarrow> bool" where
  reach_init: "reachable (initial_state d)"
| reach_connection: "reachable s \<Longrightarrow> reachable (on_connection s c now token verify)"
| reach_message: "reachable s \<Longrightarrow> reachable (on_message s c now message decode rnd dir)"
| reach_close: "reachable s \<Longrightarrow> reachable (cleanupConnection s c)"
| reach_timeout: "reachable s \<Longrightarrow> reachable (fire_timeout s now h fetched txFails)"
| reach_leave: "reachable s \<Longrightarrow> reachable (run_pendingLeave s now i)"
| reach_sweep: "reachable s \<Longrightarrow> reachable (cleanupStaleData s now)"
section \<open>Observations and example states used in the statements\<close>

text \<open>
  The registry \<^verbatim>\<open>userConnections\<close> maps a user to the ids of the connections attached
  for that user. \<open>conns_shrink s s'\<close> says that no user has more connections in \<open>s'\<close>
  than in \<open>s\<close>.
\<close>

definition connections_of :: "state \<Rightarrow> user_id \<Rightarrow> conn_id list" where
  "connections_of s userId = (case userConnections s userId of None \<Rightarrow> [] | Some l \<Rightarrow> l)"

definition connection_bound :: "state \<Rightarrow> bool" where
  "connection_bound s = (\<forall>userId. length (connections_of s userId) \<le> MAX_CONNECTIONS_PER_USER)"

definition conns_shrink :: "state \<Rightarrow> state \<Rightarrow> bool" where
  "conns_shrink s s' = (\<forall>userId. length (connections_of s' userId) \<le> length (connections_of s userId))"

definition three_connections :: state where
  "three_connections =
     on_connection (on_connection (on_connection (initial_state empty_database)
       ''c1'' 0 (Some ''t'') (\<lambda>_. Some 7)) ''c2'' 1 (Some ''t'') (\<lambda>_. Some 7)) ''c3'' 2 (Some ''t'') (\<lambda>_. Some 7)"

text \<open>
  The verdicts of the rate limiter: for a user and a list of arrival times, and for a list of
  frames (connection, arrival time, text) run through the message handler. \<open>window_closed\<close>
  says that the next frame of the user opens a new window.
\<close>

fun rate_run :: "state \<Rightarrow> user_id \<Rightarrow> millis list \<Rightarrow> bool list" where
  "rate_run s userId [] = []"
| "rate_run s userId (t # ts) =
     fst (checkRateLimit s userId t) # rate_run (snd (checkRateLimit s userId t)) userId ts"

definition admitted :: "bool list \<Rightarrow> nat" where
  "admitted bs = length (filter id bs)"

definition window_closed :: "state \<Rightarrow> user_id \<Rightarrow> millis \<Rightarrow> bool" where
  "window_closed s userId now =
     (case rateLimitMap s userId of None \<Rightarrow> True | Some (cnt, resetTime) \<Rightarrow> now > resetTime)"

fun receive_verdicts ::
  "state \<Rightarrow> user_id \<Rightarrow> (conn_id \<times> millis \<times> string) list \<Rightarrow> (string \<Rightarrow> decoded) \<Rightarrow> nat \<Rightarrow> orderDir
   \<Rightarrow> bool list" where
  "receive_verdicts s userId [] decode rnd dir = []"
| "receive_verdicts s userId ((c, now, message) # frames) decode rnd dir =
     fst (checkRateLimit s userId now)
     # receive_verdicts (on_message s c now message decode rnd dir) userId frames decode rnd dir"

fun receive ::
  "state \<Rightarrow> (conn_id \<times> millis \<times> string) list \<Rightarrow> (string \<Rightarrow> decoded) \<Rightarrow> nat \<Rightarrow> orderDir \<Rightarrow> state" where
  "receive s [] decode rnd dir = s"
| "receive s ((c, now, message) # frames) decode rnd dir =
     receive (on_message s c now message decode rnd dir) frames decode rnd dir"

definition two_connections :: state where
  "two_connections =
     on_connection (on_connection (initial_state empty_database)
       ''c1'' 0 (Some ''t'') (\<lambda>_. Some 7)) ''c2'' 0 (Some ''t'') (\<lambda>_. Some 7)"

text \<open>
  User 7 with two connections, and the same after ten frames on the first connection at
  time 100 (none of which is valid JSON).
\<close>

definition ten_frames :: state where
  "ten_frames = receive two_connections (replicate 10 (''c1'', 100, ''x'')) (\<lambda>_. SyntaxError) 0 Asc"

text \<open>A broadcast to a room reaches the sockets of the room that are open.\<close>

definition receives :: "state \<Rightarrow> room_id \<Rightarrow> conn_id \<Rightarrow> bool" where
  "receives s roomId c =
     (case roomSockets s roomId of
        None \<Rightarrow> False
      | Some socks \<Rightarrow> c \<in> set socks \<and> ws_readyState (sockets s c) = OPEN)"

text \<open>
  The checks of \<^verbatim>\<open>handleSubmitAnswer\<close> as predicates: the socket is in the room and its
  user is in the room's participant set; question \<open>i\<close> is the current one and its expired
  flag is not set.
\<close>

definition participant_in :: "state \<Rightarrow> conn_id \<Rightarrow> millis \<Rightarrow> room_id \<Rightarrow> user_id \<Rightarrow> bool" where
  "participant_in s c now roomId userId =
     (roomId \<noteq> [] \<and> ws_currentRoom (sockets s c) = Some roomId \<and> ws_userId (sockets s c) = Some userId
      \<and> redis_sismember (redis s) now (key_participants roomId) (toString_nat userId) = Inr True)"

definition question_active :: "state \<Rightarrow> millis \<Rightarrow> room_id \<Rightarrow> int \<Rightarrow> bool" where
  "question_active s now roomId questionIndex =
     (0 \<le> questionIndex \<and> questionIndex < int QUESTIONS_PER_QUIZ
      \<and> redis_get (redis s) now (key_currentQuestion roomId) = Inr (Some (toString_int questionIndex))
      \<and> \<not> redis_exists (redis s) now (key_expired roomId questionIndex))"



text \<open>
  The running example: room \<open>r1\<close> of host 1 (Ann), with users 2 (Bob) and 1 (Ann) joined in
  that order on connections \<open>c2\<close> and \<open>c1\<close>; the quiz was started at time 1000 and
  question 0 is being asked since time 6000. Every question has the correct choice 2.
\<close>

definition example_question :: "nat \<Rightarrow> question" where
  "example_question n =
     \<lparr>q_id = n, q_text = ''q'', q_options = [''a'', ''b'', ''c'', ''d''], q_correctIdx = 2\<rparr>"

definition example_db :: database where
  "example_db =
     \<lparr>users = [1 \<mapsto> \<lparr>user_name = Some ''Ann''\<rparr>, 2 \<mapsto> \<lparr>user_name = Some ''Bob''\<rparr>],
      rooms = [''r1'' \<mapsto> \<lparr>room_name = ''Room'', room_hostId = 1, room_isActive = True,
                          room_maxPlayers = 4\<rparr>],
      roomParticipants = [\<lparr>rp_roomId = ''r1'', rp_userId = 2, rp_score = 0\<rparr>,
                          \<lparr>rp_roomId = ''r1'', rp_userId = 1, rp_score = 0\<rparr>],
      questions = map example_question [1 ..< 11],
      answerClaims = [],
      playerRatings = Map.empty\<rparr>"

definition asking :: state where
  "asking =
     \<lparr>sockets = (\<lambda>_. new_ws\<lparr>ws_readyState := CLOSED\<rparr>)
        (''c1'' := new_ws\<lparr>ws_userId := Some 1, ws_currentRoom := Some ''r1'',
           ws_sent := [Connected ''c1'' 1, ParticipantJoined 1 ''Ann'', JoinedRoom ''r1'',
                       QuizStarting ''r1'' 5000 10, NextQuestion 0 (example_question 1) 6000 16000]\<rparr>,
         ''c2'' := new_ws\<lparr>ws_userId := Some 2, ws_currentRoom := Some ''r1'',
           ws_sent := [Connected ''c2'' 2, ParticipantJoined 2 ''Bob'', JoinedRoom ''r1'',
                       ParticipantJoined 1 ''Ann'', QuizStarting ''r1'' 5000 10,
                       NextQuestion 0 (example_question 1) 6000 16000]\<rparr>),
      roomSockets = [''r1'' \<mapsto> [''c2'', ''c1'']],
      questionsCache = [''r1'' \<mapsto> (map example_question [1 ..< 11], 1000)],
      timers = [(''r1:start'', \<lparr>rt_timer = 2, rt_questionIndex = - 1, rt_roomId = ''r1''\<rparr>),
                (''r1:0'', \<lparr>rt_timer = 3, rt_questionIndex = 0, rt_roomId = ''r1''\<rparr>)],
      userConnections = [1 \<mapsto> [''c1''], 2 \<mapsto> [''c2'']],
      connectionCleanup = [''c1'' \<mapsto> 0, ''c2'' \<mapsto> 1],
      rateLimitMap = Map.empty,
      redis = [''room:r1:participants'' \<mapsto> (RSet [''2'', ''1''], Some 600200),
               ''room:r1:currentQuestion'' \<mapsto> (RString ''0'', Some 606000),
               ''room:r1:startTime'' \<mapsto> (RString ''1000'', Some 601000)],
      prisma = example_db,
      timeouts = [0 \<mapsto> (600000, ConnectionCleanupTimeout ''c1''),
                  1 \<mapsto> (600000, ConnectionCleanupTimeout ''c2''),
                  3 \<mapsto> (16000, QuestionTimer ''r1'' 0)],
      nextHandle = 4, pendingLeave = [], errorLog = []\<rparr>"

text \<open>
  The same room in a second quiz: the store still holds the claim that user 2 won for
  question 0 of the first quiz, and the score that came with it.
\<close>

definition asking_again :: state where
  "asking_again =
     asking\<lparr>prisma := example_db
       \<lparr>roomParticipants := [\<lparr>rp_roomId = ''r1'', rp_userId = 2, rp_score = 1\<rparr>,
                              \<lparr>rp_roomId = ''r1'', rp_userId = 1, rp_score = 0\<rparr>],
        answerClaims := [\<lparr>ac_roomId = ''r1'', ac_questionIndex = 0, ac_userId = 2,
                           ac_txHash = ''claim_r1_0_2_500''\<rparr>]\<rparr>\<rparr>"

text \<open>The running example after the deadline timer of question 0 has fired at time 16001.\<close>

definition expired_q0 :: state where
  "expired_q0 = fire_timeout asking 16001 3 None (\<lambda>_. False)"

text \<open>
  The final standings as the specification words them, but for the rating a user starts
  from, which is taken as the code computes it: the stored rating, or 1200 when there is
  none or it is 0.
\<close>

definition rating_base :: "database \<Rightarrow> user_id \<Rightarrow> int" where
  "rating_base d userId =
     (case playerRatings d userId of None \<Rightarrow> 1200 | Some rating \<Rightarrow> if rating = 0 then 1200 else rating)"

definition standing_of :: "database \<Rightarrow> roomParticipant \<times> user \<Rightarrow> standing" where
  "standing_of d pu =
     \<lparr>st_userId = rp_userId (fst pu), st_userName = name_or_anonymous (user_name (snd pu)),
      st_score = rp_score (fst pu),
      st_newRating = rating_base d (rp_userId (fst pu)) + rp_score (fst pu) * 10\<rparr>"

definition new_ratings :: "database \<Rightarrow> (roomParticipant \<times> user) list \<Rightarrow> user_id \<Rightarrow> int option" where
  "new_ratings d participants =
     map_of (map (\<lambda>pu. (rp_userId (fst pu), st_newRating (standing_of d pu))) participants)"

text \<open>
  The running example at the end of a quiz in which both users have won five questions;
  user 2 has a stored rating of 1000. The store returns the rows in the order in which
  they were inserted.
\<close>

definition tied :: state where
  "tied =
     asking\<lparr>prisma := example_db
       \<lparr>roomParticipants := [\<lparr>rp_roomId = ''r1'', rp_userId = 2, rp_score = 5\<rparr>,
                              \<lparr>rp_roomId = ''r1'', rp_userId = 1, rp_score = 5\<rparr>],
        playerRatings := [2 \<mapsto> 1000]\<rparr>\<rparr>"

definition tied_rows :: "(roomParticipant \<times> user) list" where
  "tied_rows =
     [(\<lparr>rp_roomId = ''r1'', rp_userId = 2, rp_score = 5\<rparr>, \<lparr>user_name = Some ''Bob''\<rparr>),
      (\<lparr>rp_roomId = ''r1'', rp_userId = 1, rp_score = 5\<rparr>, \<lparr>user_name = Some ''Ann''\<rparr>)]"

text \<open>
  The running example after user 1 has answered question 0 at time 7000, and the same room
  100 seconds later, in a second quiz: both users have joined again at time 100200, the
  host has started the quiz at 101000 and question 0 is being asked since 106000. Of the
  second state only the key-value store is given as it then is; it still holds the
  answered flag of the first quiz.
\<close>

definition answered_q0 :: state where
  "answered_q0 =
     asking\<lparr>redis := redis_set_ex (redis asking) 7000 (key_answered ''r1'' 0 1) ''1'' REDIS_TTL\<rparr>"

definition second_quiz :: state where
  "second_quiz =
     asking\<lparr>redis := [''room:r1:participants'' \<mapsto> (RSet [''2'', ''1''], Some 700200),
                       ''room:r1:currentQuestion'' \<mapsto> (RString ''0'', Some 706000),
                       ''room:r1:startTime'' \<mapsto> (RString ''101000'', Some 701000),
                       ''room:r1:q:0:answered:1'' \<mapsto> (RString ''1'', Some 607000)]\<rparr>"
section \<open>Basic facts\<close>

lemmas CONFIG_defs =
  QUESTION_TIME_LIMIT_def QUIZ_START_DELAY_def NEXT_QUESTION_DELAY_def QUESTIONS_PER_QUIZ_def
  REDIS_TTL_def MAX_CONNECTIONS_PER_USER_def RATE_LIMIT_WINDOW_def RATE_LIMIT_MAX_def

lemma replicate_9: "replicate 9 x = [x, x, x, x, x, x, x, x, x]"
  by (simp add: numeral_eq_Suc)

lemma replicate_10: "replicate 10 x = [x, x, x, x, x, x, x, x, x, x]"
  by (simp add: numeral_eq_Suc)

lemmas eval_defs =
  on_connection_def initial_state_def Let_def case_prod_beta setTimeout_def sendResponse_def
  sendError_def update_ws_def new_ws_def set_add_def CONFIG_defs on_message_def checkRateLimit_def

text \<open>What the helper operations leave alone.\<close>

lemma rd_prims [simp]:
  "redis (update_ws s c f) = redis s"
  "redis (console_error s m) = redis s"
  "redis (sendResponse s c fr) = redis s"
  "redis (sendError s c n m) = redis s"
  "redis (ws_close s c cd m) = redis s"
  "redis (snd (setTimeout s now dl cb)) = redis s"
  "redis (clearTimeout s h) = redis s"
  "redis (timers_set s k rt) = redis s"
  "redis (timers_delete s k) = redis s"
  by (simp_all add: update_ws_def console_error_def sendResponse_def sendError_def ws_close_def
        setTimeout_def clearTimeout_def timers_set_def timers_delete_def)

lemma rd_stages [simp]:
  "redis (clear_cleanup_timeout s c) = redis s"
  "redis (start_leaveRoom s c) = redis s"
  "redis (untrack_connection s c) = redis s"
  by (simp_all add: clear_cleanup_timeout_def start_leaveRoom_def untrack_connection_def
        split: option.split)

lemma rd_clear_room_timer [simp]: "redis (clear_room_timer k s) = redis s"
  by (simp add: clear_room_timer_def split: option.split)

lemma rd_fold_clear_room_timer [simp]: "redis (fold clear_room_timer ks s) = redis s"
  by (induction ks arbitrary: s) simp_all

lemma rd_schedule_next [simp]: "redis (schedule_next s now r i) = redis s"
  by (simp add: schedule_next_def case_prod_beta)

lemma rd_cleanupConnection [simp]: "redis (cleanupConnection s c) = redis s"
  by (simp add: cleanupConnection_def)

lemma rd_fold_cleanupConnection [simp]:
  "redis (fold (\<lambda>c s'. cleanupConnection s' c) cs s) = redis s"
  by (induction cs arbitrary: s) simp_all

lemma rd_broadcastToRoom [simp]: "redis (broadcastToRoom s r m) = redis s"
  by (simp add: broadcastToRoom_def Let_def split: option.split)

lemma db_prims [simp]:
  "prisma (update_ws s c f) = prisma s"
  "prisma (console_error s m) = prisma s"
  "prisma (sendResponse s c fr) = prisma s"
  "prisma (sendError s c n m) = prisma s"
  "prisma (ws_close s c cd m) = prisma s"
  "prisma (snd (setTimeout s now dl cb)) = prisma s"
  "prisma (clearTimeout s h) = prisma s"
  "prisma (timers_set s k rt) = prisma s"
  "prisma (timers_delete s k) = prisma s"
  by (simp_all add: update_ws_def console_error_def sendResponse_def sendError_def ws_close_def
        setTimeout_def clearTimeout_def timers_set_def timers_delete_def)

lemma db_stages [simp]:
  "prisma (clear_cleanup_timeout s c) = prisma s"
  "prisma (start_leaveRoom s c) = prisma s"
  "prisma (untrack_connection s c) = prisma s"
  by (simp_all add: clear_cleanup_timeout_def start_leaveRoom_def untrack_connection_def
        split: option.split)

lemma db_clear_room_timer [simp]: "prisma (clear_room_timer k s) = prisma s"
  by (simp add: clear_room_timer_def split: option.split)

lemma db_fold_clear_room_timer [simp]: "prisma (fold clear_room_timer ks s) = prisma s"
  by (induction ks arbitrary: s) simp_all

lemma db_schedule_next [simp]: "prisma (schedule_next s now r i) = prisma s"
  by (simp add: schedule_next_def case_prod_beta)

lemma db_cleanupConnection [simp]: "prisma (cleanupConnection s c) = prisma s"
  by (simp add: cleanupConnection_def)

lemma db_fold_cleanupConnection [simp]:
  "prisma (fold (\<lambda>c s'. cleanupConnection s' c) cs s) = prisma s"
  by (induction cs arbitrary: s) simp_all

lemma db_broadcastToRoom [simp]: "prisma (broadcastToRoom s r m) = prisma s"
  by (simp add: broadcastToRoom_def Let_def split: option.split)

lemma db_cleanupRoomData [simp]: "prisma (cleanupRoomData s r) = prisma s"
  by (simp add: cleanupRoomData_def Let_def)

lemma qc_prims [simp]:
  "questionsCache (update_ws s c f) = questionsCache s"
  "questionsCache (console_error s m) = questionsCache s"
  "questionsCache (sendResponse s c fr) = questionsCache s"
  "questionsCache (sendError s c n m) = questionsCache s"
  "questionsCache (ws_close s c cd m) = questionsCache s"
  "questionsCache (snd (setTimeout s now dl cb)) = questionsCache s"
  "questionsCache (clearTimeout s h) = questionsCache s"
  "questionsCache (timers_set s k rt) = questionsCache s"
  "questionsCache (timers_delete s k) = questionsCache s"
  by (simp_all add: update_ws_def console_error_def sendResponse_def sendError_def ws_close_def
        setTimeout_def clearTimeout_def timers_set_def timers_delete_def)

lemma qc_stages [simp]:
  "questionsCache (clear_cleanup_timeout s c) = questionsCache s"
  "questionsCache (start_leaveRoom s c) = questionsCache s"
  "questionsCache (untrack_connection s c) = questionsCache s"
  by (simp_all add: clear_cleanup_timeout_def start_leaveRoom_def untrack_connection_def
        split: option.split)

lemma qc_clear_room_timer [simp]: "questionsCache (clear_room_timer k s) = questionsCache s"
  by (simp add: clear_room_timer_def split: option.split)

lemma qc_fold_clear_room_timer [simp]: "questionsCache (fold clear_room_timer ks s) = questionsCache s"
  by (induction ks arbitrary: s) simp_all

lemma qc_schedule_next [simp]: "questionsCache (schedule_next s now r i) = questionsCache s"
  by (simp add: schedule_next_def case_prod_beta)

lemma qc_cleanupConnection [simp]: "questionsCache (cleanupConnection s c) = questionsCache s"
  by (simp add: cleanupConnection_def)

lemma qc_fold_cleanupConnection [simp]:
  "questionsCache (fold (\<lambda>c s'. cleanupConnection s' c) cs s) = questionsCache s"
  by (induction cs arbitrary: s) simp_all

lemma qc_broadcastToRoom [simp]: "questionsCache (broadcastToRoom s r m) = questionsCache s"
  by (simp add: broadcastToRoom_def Let_def split: option.split)

lemma rs_prims [simp]:
  "roomSockets (update_ws s c f) = roomSockets s"
  "roomSockets (console_error s m) = roomSockets s"
  "roomSockets (sendResponse s c fr) = roomSockets s"
  "roomSockets (sendError s c n m) = roomSockets s"
  "roomSockets (ws_close s c cd m) = roomSockets s"
  "roomSockets (snd (setTimeout s now dl cb)) = roomSockets s"
  "roomSockets (clearTimeout s h) = roomSockets s"
  "roomSockets (timers_set s k rt) = roomSockets s"
  "roomSockets (timers_delete s k) = roomSockets s"
  by (simp_all add: update_ws_def console_error_def sendResponse_def sendError_def ws_close_def
        setTimeout_def clearTimeout_def timers_set_def timers_delete_def)

lemma rs_stages [simp]:
  "roomSockets (clear_cleanup_timeout s c) = roomSockets s"
  "roomSockets (start_leaveRoom s c) = roomSockets s"
  "roomSockets (untrack_connection s c) = roomSockets s"
  by (simp_all add: clear_cleanup_timeout_def start_leaveRoom_def untrack_connection_def
        split: option.split)

lemma rs_clear_room_timer [simp]: "roomSockets (clear_room_timer k s) = roomSockets s"
  by (simp add: clear_room_timer_def split: option.split)

lemma rs_fold_clear_room_timer [simp]: "roomSockets (fold clear_room_timer ks s) = roomSockets s"
  by (induction ks arbitrary: s) simp_all

lemma rs_schedule_next [simp]: "roomSockets (schedule_next s now r i) = roomSockets s"
  by (simp add: schedule_next_def case_prod_beta)

lemma rs_cleanupConnection [simp]: "roomSockets (cleanupConnection s c) = roomSockets s"
  by (simp add: cleanupConnection_def)

lemma rs_fold_cleanupConnection [simp]:
  "roomSockets (fold (\<lambda>c s'. cleanupConnection s' c) cs s) = roomSockets s"
  by (induction cs arbitrary: s) simp_all

lemma rs_cleanupRoomData [simp]: "roomSockets (cleanupRoomData s r) = roomSockets s"
  by (simp add: cleanupRoomData_def Let_def)

lemma rl_prims [simp]:
  "rateLimitMap (update_ws s c f) = rateLimitMap s"
  "rateLimitMap (console_error s m) = rateLimitMap s"
  "rateLimitMap (sendResponse s c fr) = rateLimitMap s"
  "rateLimitMap (sendError s c n m) = rateLimitMap s"
  "rateLimitMap (ws_close s c cd m) = rateLimitMap s"
  "rateLimitMap (snd (setTimeout s now dl cb)) = rateLimitMap s"
  "rateLimitMap (clearTimeout s h) = rateLimitMap s"
  "rateLimitMap (timers_set s k rt) = rateLimitMap s"
  "rateLimitMap (timers_delete s k) = rateLimitMap s"
  by (simp_all add: update_ws_def console_error_def sendResponse_def sendError_def ws_close_def
        setTimeout_def clearTimeout_def timers_set_def timers_delete_def)

lemma rl_stages [simp]:
  "rateLimitMap (clear_cleanup_timeout s c) = rateLimitMap s"
  "rateLimitMap (start_leaveRoom s c) = rateLimitMap s"
  "rateLimitMap (untrack_connection s c) = rateLimitMap s"
  by (simp_all add: clear_cleanup_timeout_def start_leaveRoom_def untrack_connection_def
        split: option.split)

lemma rl_clear_room_timer [simp]: "rateLimitMap (clear_room_timer k s) = rateLimitMap s"
  by (simp add: clear_room_timer_def split: option.split)

lemma rl_fold_clear_room_timer [simp]: "rateLimitMap (fold clear_room_timer ks s) = rateLimitMap s"
  by (induction ks arbitrary: s) simp_all

lemma rl_schedule_next [simp]: "rateLimitMap (schedule_next s now r i) = rateLimitMap s"
  by (simp add: schedule_next_def case_prod_beta)

lemma rl_cleanupConnection [simp]: "rateLimitMap (cleanupConnection s c) = rateLimitMap s"
  by (simp add: cleanupConnection_def)

lemma rl_fold_cleanupConnection [simp]:
  "rateLimitMap (fold (\<lambda>c s'. cleanupConnection s' c) cs s) = rateLimitMap s"
  by (induction cs arbitrary: s) simp_all

lemma rl_broadcastToRoom [simp]: "rateLimitMap (broadcastToRoom s r m) = rateLimitMap s"
  by (simp add: broadcastToRoom_def Let_def split: option.split)

lemma rl_cleanupRoomData [simp]: "rateLimitMap (cleanupRoomData s r) = rateLimitMap s"
  by (simp add: cleanupRoomData_def Let_def)

text \<open>Sockets: only \<^verbatim>\<open>broadcastToRoom\<close>, the direct sends and \<^verbatim>\<open>close\<close> write to a socket.\<close>

lemma sockets_prims [simp]:
  "sockets (console_error s m) = sockets s"
  "sockets (snd (setTimeout s now dl cb)) = sockets s"
  "sockets (clearTimeout s h) = sockets s"
  "sockets (timers_set s k rt) = sockets s"
  "sockets (timers_delete s k) = sockets s"
  by (simp_all add: console_error_def setTimeout_def clearTimeout_def timers_set_def timers_delete_def)

lemma sockets_stages [simp]:
  "sockets (clear_cleanup_timeout s c) = sockets s"
  "sockets (start_leaveRoom s c) = sockets s"
  "sockets (untrack_connection s c) = sockets s"
  by (simp_all add: clear_cleanup_timeout_def start_leaveRoom_def untrack_connection_def
        split: option.split)

lemma sockets_clear_room_timer [simp]: "sockets (clear_room_timer k s) = sockets s"
  by (simp add: clear_room_timer_def split: option.split)

lemma sockets_fold_clear_room_timer [simp]: "sockets (fold clear_room_timer ks s) = sockets s"
  by (induction ks arbitrary: s) simp_all

lemma sockets_schedule_next [simp]: "sockets (schedule_next s now r i) = sockets s"
  by (simp add: schedule_next_def case_prod_beta)

lemma sockets_cleanupRoomData [simp]: "sockets (cleanupRoomData s r) = sockets s"
  by (simp add: cleanupRoomData_def Let_def)

lemma sockets_cleanupConnection:
  "sockets (cleanupConnection s c) c' =
     (if c' = c \<and> ws_readyState (sockets s c) = OPEN
      then (sockets s c)\<lparr>ws_readyState := CLOSING, ws_closeArgs := Some (None, [])\<rparr>
      else sockets s c')"
  by (simp add: cleanupConnection_def ws_close_def update_ws_def)

text \<open>Cleaning up a connection changes neither what a socket was sent nor whose it is.\<close>

lemma sent_cleanupConnection [simp]:
  "ws_sent (sockets (cleanupConnection s c) c') = ws_sent (sockets s c')"
  "ws_userId (sockets (cleanupConnection s c) c') = ws_userId (sockets s c')"
  "ws_currentRoom (sockets (cleanupConnection s c) c') = ws_currentRoom (sockets s c')"
  by (simp_all add: sockets_cleanupConnection)

lemma sent_fold_cleanupConnection [simp]:
  "ws_sent (sockets (fold (\<lambda>c s'. cleanupConnection s' c) cs s) c') = ws_sent (sockets s c')"
  "ws_userId (sockets (fold (\<lambda>c s'. cleanupConnection s' c) cs s) c') = ws_userId (sockets s c')"
  "ws_currentRoom (sockets (fold (\<lambda>c s'. cleanupConnection s' c) cs s) c')
   = ws_currentRoom (sockets s c')"
  by (induction cs arbitrary: s) simp_all

lemma sent_broadcastToRoom:
  "ws_sent (sockets (broadcastToRoom s r m) c)
   = ws_sent (sockets s c) @ (if receives s r c then [m] else [])"
  by (simp add: broadcastToRoom_def receives_def Let_def split: option.split)

lemma uid_broadcastToRoom [simp]:
  "ws_userId (sockets (broadcastToRoom s r m) c) = ws_userId (sockets s c)"
  "ws_currentRoom (sockets (broadcastToRoom s r m) c) = ws_currentRoom (sockets s c)"
  by (simp_all add: broadcastToRoom_def Let_def split: option.split)

lemma questionsCache_cleanupRoomData [simp]:
  "questionsCache (cleanupRoomData s r) = (questionsCache s)(r := None)"
  by (simp add: cleanupRoomData_def Let_def)

lemma redis_cleanupRoomData [simp]:
  "redis (cleanupRoomData s r) = redis_del (redis s) (room_keysToDelete r)"
  by (simp add: cleanupRoomData_def Let_def)

lemma nh_prims [simp]:
  "nextHandle (update_ws s c f) = nextHandle s"
  "nextHandle (console_error s m) = nextHandle s"
  "nextHandle (sendResponse s c fr) = nextHandle s"
  "nextHandle (sendError s c n m) = nextHandle s"
  "nextHandle (ws_close s c cd m) = nextHandle s"
  "nextHandle (clearTimeout s h) = nextHandle s"
  "nextHandle (timers_set s k rt) = nextHandle s"
  "nextHandle (timers_delete s k) = nextHandle s"
  by (simp_all add: update_ws_def console_error_def sendResponse_def sendError_def ws_close_def
        setTimeout_def clearTimeout_def timers_set_def timers_delete_def)

lemma nh_stages [simp]:
  "nextHandle (clear_cleanup_timeout s c) = nextHandle s"
  "nextHandle (start_leaveRoom s c) = nextHandle s"
  "nextHandle (untrack_connection s c) = nextHandle s"
  by (simp_all add: clear_cleanup_timeout_def start_leaveRoom_def untrack_connection_def
        split: option.split)

lemma nh_clear_room_timer [simp]: "nextHandle (clear_room_timer k s) = nextHandle s"
  by (simp add: clear_room_timer_def split: option.split)

lemma nh_cleanupConnection [simp]: "nextHandle (cleanupConnection s c) = nextHandle s"
  by (simp add: cleanupConnection_def)

lemma nh_fold_cleanupConnection [simp]:
  "nextHandle (fold (\<lambda>c s'. cleanupConnection s' c) cs s) = nextHandle s"
  by (induction cs arbitrary: s) simp_all

lemma nh_broadcastToRoom [simp]: "nextHandle (broadcastToRoom s r m) = nextHandle s"
  by (simp add: broadcastToRoom_def Let_def split: option.split)

lemma el_prims [simp]:
  "errorLog (update_ws s c f) = errorLog s"
  "errorLog (sendResponse s c fr) = errorLog s"
  "errorLog (sendError s c n m) = errorLog s"
  "errorLog (ws_close s c cd m) = errorLog s"
  "errorLog (clearTimeout s h) = errorLog s"
  "errorLog (timers_set s k rt) = errorLog s"
  "errorLog (timers_delete s k) = errorLog s"
  "errorLog (snd (setTimeout s now dl cb)) = errorLog s"
  by (simp_all add: update_ws_def console_error_def sendResponse_def sendError_def ws_close_def
        setTimeout_def clearTimeout_def timers_set_def timers_delete_def)

lemma el_stages [simp]:
  "errorLog (clear_cleanup_timeout s c) = errorLog s"
  "errorLog (start_leaveRoom s c) = errorLog s"
  "errorLog (untrack_connection s c) = errorLog s"
  by (simp_all add: clear_cleanup_timeout_def start_leaveRoom_def untrack_connection_def
        split: option.split)

lemma el_clear_room_timer [simp]: "errorLog (clear_room_timer k s) = errorLog s"
  by (simp add: clear_room_timer_def split: option.split)

lemma el_cleanupConnection [simp]: "errorLog (cleanupConnection s c) = errorLog s"
  by (simp add: cleanupConnection_def)

lemma el_fold_cleanupConnection [simp]:
  "errorLog (fold (\<lambda>c s'. cleanupConnection s' c) cs s) = errorLog s"
  by (induction cs arbitrary: s) simp_all

lemma el_broadcastToRoom [simp]: "errorLog (broadcastToRoom s r m) = errorLog s"
  by (simp add: broadcastToRoom_def Let_def split: option.split)

lemma el_schedule_next [simp]: "errorLog (schedule_next s now r i) = errorLog s"
  by (simp add: schedule_next_def case_prod_beta)

lemma timeouts_schedule_next:
  "timeouts (schedule_next s now r i) (nextHandle s) = Some (now + NEXT_QUESTION_DELAY, NextTimer r i)"
  by (simp add: schedule_next_def case_prod_beta setTimeout_def timers_set_def)

text \<open>
  A broadcast, in full: the sockets it reaches get the frame; the sockets it drops were not
  open, so cleaning them up closes nothing.
\<close>

lemma sockets_fold_cleanupConnection:
  "\<forall>c \<in> set cs. ws_readyState (sockets s c) \<noteq> OPEN \<Longrightarrow>
   sockets (fold (\<lambda>c s'. cleanupConnection s' c) cs s) = sockets s"
proof (induction cs arbitrary: s)
  case Nil
  show ?case by simp
next
  case (Cons c cs)
  have same: "sockets (cleanupConnection s c) = sockets s"
    using Cons.prems by (auto simp: sockets_cleanupConnection fun_eq_iff)
  then have "\<forall>c' \<in> set cs. ws_readyState (sockets (cleanupConnection s c) c') \<noteq> OPEN"
    using Cons.prems by simp
  from Cons.IH [OF this] same show ?case by simp
qed

lemma sockets_broadcastToRoom:
  "sockets (broadcastToRoom s r m)
   = (\<lambda>c. if receives s r c then (sockets s c)\<lparr>ws_sent := ws_sent (sockets s c) @ [m]\<rparr>
           else sockets s c)"
proof (cases "roomSockets s r")
  case None
  then show ?thesis by (simp add: broadcastToRoom_def receives_def)
next
  case (Some socks)
  show ?thesis
  proof (cases "socks = []")
    case True
    with Some show ?thesis by (simp add: broadcastToRoom_def receives_def)
  next
    case False
    with Some show ?thesis
      by (simp add: broadcastToRoom_def receives_def Let_def sockets_fold_cleanupConnection)
  qed
qed

lemma roomSockets_broadcastToRoom:
  "roomSockets (broadcastToRoom s r m) r' = (if r' = r then
      (case roomSockets s r of
         None \<Rightarrow> None
       | Some socks \<Rightarrow> Some (filter (\<lambda>c. ws_readyState (sockets s c) = OPEN) socks))
     else roomSockets s r')"
  by (simp add: broadcastToRoom_def Let_def split: option.split)

lemma receives_broadcastToRoom [simp]:
  "receives (broadcastToRoom s r m) r' c = receives s r' c"
  by (auto simp: receives_def sockets_broadcastToRoom roomSockets_broadcastToRoom split: option.split)

lemma receives_frame [simp]:
  "receives (console_error s m) r c = receives s r c"
  "receives (clear_room_timer k s) r c = receives s r c"
  "receives (schedule_next s now r' i) r c = receives s r c"
  "receives (s\<lparr>prisma := d\<rparr>) r c = receives s r c"
  "receives (s\<lparr>redis := x\<rparr>) r c = receives s r c"
  "receives (s\<lparr>timeouts := y\<rparr>) r c = receives s r c"
  by (simp_all add: receives_def split: option.split)

text \<open>Decimal rendering of small numbers, and the keys of one room, which are all different.\<close>

lemma toString_nat_digit: "n < 10 \<Longrightarrow> toString_nat n = [digit n]"
  by (simp add: toString_nat.simps)

lemmas toString_nat_numeral = toString_nat.simps [of "numeral k" for k]

lemma digits [simp]:
  "digit 0 = CHR ''0''" "digit 1 = CHR ''1''" "digit 2 = CHR ''2''" "digit 3 = CHR ''3''"
  "digit 4 = CHR ''4''" "digit 5 = CHR ''5''" "digit 6 = CHR ''6''" "digit 7 = CHR ''7''"
  "digit 8 = CHR ''8''" "digit 9 = CHR ''9''" "digit (Suc 0) = CHR ''1''"
  by (simp_all add: digit_def)

lemma toString_int_small [simp]:
  "toString_int 0 = ''0''" "toString_int 1 = ''1''"
  "toString_int (numeral k) = toString_nat (numeral k)"
  by (simp_all add: toString_int_def toString_nat_digit digit_def)

lemmas key_defs = key_currentQuestion_def key_participants_def key_startTime_def key_answered_def
  key_firstUser_def key_expired_def

lemmas redis_defs = redis_live_def redis_get_def redis_exists_def redis_set_def redis_set_ex_def
  redis_set_ex_nx_def redis_expire_def redis_sadd_def redis_sismember_def redis_srem_def redis_del_def

lemma keys_distinct [simp]:
  "key_answered r i u \<noteq> key_firstUser r i" "key_firstUser r i \<noteq> key_answered r i u"
  "key_answered r i u \<noteq> key_expired r i" "key_expired r i \<noteq> key_answered r i u"
  "key_answered r i u \<noteq> key_currentQuestion r" "key_currentQuestion r \<noteq> key_answered r i u"
  "key_answered r i u \<noteq> key_participants r" "key_participants r \<noteq> key_answered r i u"
  "key_answered r i u \<noteq> key_startTime r" "key_startTime r \<noteq> key_answered r i u"
  "key_firstUser r i \<noteq> key_expired r i" "key_expired r i \<noteq> key_firstUser r i"
  "key_firstUser r i \<noteq> key_currentQuestion r" "key_currentQuestion r \<noteq> key_firstUser r i"
  "key_firstUser r i \<noteq> key_participants r" "key_participants r \<noteq> key_firstUser r i"
  "key_firstUser r i \<noteq> key_startTime r" "key_startTime r \<noteq> key_firstUser r i"
  "key_expired r i \<noteq> key_currentQuestion r" "key_currentQuestion r \<noteq> key_expired r i"
  "key_expired r i \<noteq> key_participants r" "key_participants r \<noteq> key_expired r i"
  "key_expired r i \<noteq> key_startTime r" "key_startTime r \<noteq> key_expired r i"
  "key_currentQuestion r \<noteq> key_participants r" "key_participants r \<noteq> key_currentQuestion r"
  "key_currentQuestion r \<noteq> key_startTime r" "key_startTime r \<noteq> key_currentQuestion r"
  "key_participants r \<noteq> key_startTime r" "key_startTime r \<noteq> key_participants r"
  by (simp_all add: key_defs)

text \<open>The running example.\<close>

lemma example_correct [simp]: "q_correctIdx (example_question n) = 2"
  by (simp add: example_question_def)

lemma asking_participants:
  "now < 600200 \<Longrightarrow> participant_in asking ''c1'' now ''r1'' 1"
  "now < 600200 \<Longrightarrow> participant_in asking ''c2'' now ''r1'' 2"
  by (simp_all add: participant_in_def asking_def new_ws_def redis_defs key_defs toString_nat_digit)

lemma asking_active: "now < 606000 \<Longrightarrow> question_active asking now ''r1'' 0"
  by (simp add: question_active_def asking_def redis_defs key_defs QUESTIONS_PER_QUIZ_def)

lemma asking_question: "cached_question asking ''r1'' 0 = Some (example_question 1)"
  by (simp add: cached_question_def asking_def)

lemma asking_fresh:
  "redis_get (redis asking) now (key_answered ''r1'' 0 u) = Inr None"
  "\<not> redis_exists (redis asking) now (key_firstUser ''r1'' 0)"
  by (simp_all add: asking_def redis_defs key_defs)

lemma asking_receives:
  "receives asking ''r1'' c = (c = ''c1'' \<or> c = ''c2'')"
  by (auto simp: receives_def asking_def new_ws_def)

lemma asking_again_participants:
  "now < 600200 \<Longrightarrow> participant_in asking_again ''c1'' now ''r1'' 1"
  "now < 600200 \<Longrightarrow> participant_in asking_again ''c2'' now ''r1'' 2"
  using asking_participants by (simp_all add: participant_in_def asking_again_def)

lemma asking_again_active: "now < 606000 \<Longrightarrow> question_active asking_again now ''r1'' 0"
  using asking_active [of now] by (simp add: question_active_def asking_again_def)

lemma asking_again_question: "cached_question asking_again ''r1'' 0 = Some (example_question 1)"
  using asking_question by (simp add: cached_question_def asking_again_def)

lemma asking_again_fresh:
  "redis_get (redis asking_again) now (key_answered ''r1'' 0 u) = Inr None"
  "\<not> redis_exists (redis asking_again) now (key_firstUser ''r1'' 0)"
  using asking_fresh by (simp_all add: asking_again_def)

lemma asking_again_receives:
  "receives asking_again ''r1'' c = (c = ''c1'' \<or> c = ''c2'')"
  using asking_receives [of c] by (simp add: asking_again_def)

lemma asking_again_transaction: "claim_transaction (prisma asking_again) now ''r1'' 0 u = None"
  by (simp add: claim_transaction_def answerClaim_create_def asking_again_def is_claim_row_def)
section \<open>The connection cap\<close>

lemma conns_shrink_refl [simp]: "conns_shrink s s"
  by (simp add: conns_shrink_def)

lemma conns_shrink_trans: "conns_shrink s s' \<Longrightarrow> conns_shrink s' s'' \<Longrightarrow> conns_shrink s s''"
  unfolding conns_shrink_def by (meson le_trans)

lemma conns_shrink_eq: "userConnections s' = userConnections s \<Longrightarrow> conns_shrink s s'"
  by (simp add: conns_shrink_def connections_of_def)

lemma conns_shrink_bound: "conns_shrink s s' \<Longrightarrow> connection_bound s \<Longrightarrow> connection_bound s'"
  unfolding conns_shrink_def connection_bound_def by (meson le_trans)

lemma uc_update_ws [simp]: "userConnections (update_ws s c f) = userConnections s"
  by (simp add: update_ws_def)

lemma uc_console_error [simp]: "userConnections (console_error s m) = userConnections s"
  by (simp add: console_error_def)

lemma uc_sendResponse [simp]: "userConnections (sendResponse s c f) = userConnections s"
  by (simp add: sendResponse_def)

lemma uc_sendError [simp]: "userConnections (sendError s c n m) = userConnections s"
  by (simp add: sendError_def)

lemma uc_ws_close [simp]: "userConnections (ws_close s c n m) = userConnections s"
  by (simp add: ws_close_def)

lemma uc_setTimeout [simp]: "userConnections (snd (setTimeout s now d cb)) = userConnections s"
  by (simp add: setTimeout_def)

lemma uc_clearTimeout [simp]: "userConnections (clearTimeout s h) = userConnections s"
  by (simp add: clearTimeout_def)

lemma uc_timers_set [simp]: "userConnections (timers_set s k rt) = userConnections s"
  by (simp add: timers_set_def)

lemma uc_timers_delete [simp]: "userConnections (timers_delete s k) = userConnections s"
  by (simp add: timers_delete_def)

lemma uc_clear_room_timer [simp]: "userConnections (clear_room_timer k s) = userConnections s"
  by (simp add: clear_room_timer_def split: option.split)

lemma uc_fold_clear_room_timer [simp]: "userConnections (fold clear_room_timer ks s) = userConnections s"
  by (induction ks arbitrary: s) simp_all

lemma uc_cleanupRoomData [simp]: "userConnections (cleanupRoomData s r) = userConnections s"
  by (simp add: cleanupRoomData_def Let_def)

lemma uc_schedule_next [simp]: "userConnections (schedule_next s now r i) = userConnections s"
  by (simp add: schedule_next_def setTimeout_def split: prod.split)

lemma length_set_delete: "length (set_delete x xs) \<le> length xs"
  by (simp add: set_delete_def)

lemma uc_stages [simp]:
  "userConnections (clear_cleanup_timeout s c) = userConnections s"
  "userConnections (start_leaveRoom s c) = userConnections s"
  by (simp_all add: clear_cleanup_timeout_def start_leaveRoom_def split: option.split)

lemma conns_shrink_untrack: "conns_shrink s (untrack_connection s c)"
  unfolding conns_shrink_def connections_of_def untrack_connection_def
  by (auto simp: length_set_delete split: option.splits)

lemma conns_shrink_cleanupConnection: "conns_shrink s (cleanupConnection s c)"
proof -
  have "conns_shrink s (start_leaveRoom (clear_cleanup_timeout s c) c)"
    by (rule conns_shrink_eq) simp
  from conns_shrink_trans [OF this conns_shrink_untrack]
  show ?thesis by (simp add: cleanupConnection_def conns_shrink_def connections_of_def)
qed

lemma conns_shrink_fold_cleanup:
  "conns_shrink s (fold (\<lambda>c s'. cleanupConnection s' c) cs s)"
proof (induction cs arbitrary: s)
  case Nil
  show ?case by simp
next
  case (Cons c cs)
  show ?case
    using conns_shrink_trans [OF conns_shrink_cleanupConnection Cons.IH] by simp
qed

lemma conns_shrink_broadcastToRoom: "conns_shrink s (broadcastToRoom s r m)"
proof (cases "roomSockets s r")
  case None
  then show ?thesis by (simp add: broadcastToRoom_def)
next
  case (Some socks)
  show ?thesis
  proof (cases "socks = []")
    case True
    with Some show ?thesis by (simp add: broadcastToRoom_def)
  next
    case False
    with Some show ?thesis
      unfolding broadcastToRoom_def Let_def
      by (simp add: conns_shrink_trans [OF conns_shrink_eq conns_shrink_fold_cleanup])
  qed
qed


lemma conns_shrink_cong: "userConnections s' = userConnections s \<Longrightarrow> conns_shrink s0 s' = conns_shrink s0 s"
  by (simp add: conns_shrink_def connections_of_def)

lemma conns_shrink_fields [simp]:
  "conns_shrink s0 (s\<lparr>sockets := a\<rparr>) = conns_shrink s0 s"
  "conns_shrink s0 (s\<lparr>roomSockets := b\<rparr>) = conns_shrink s0 s"
  "conns_shrink s0 (s\<lparr>questionsCache := c\<rparr>) = conns_shrink s0 s"
  "conns_shrink s0 (s\<lparr>timers := d\<rparr>) = conns_shrink s0 s"
  "conns_shrink s0 (s\<lparr>connectionCleanup := e\<rparr>) = conns_shrink s0 s"
  "conns_shrink s0 (s\<lparr>rateLimitMap := f\<rparr>) = conns_shrink s0 s"
  "conns_shrink s0 (s\<lparr>redis := g\<rparr>) = conns_shrink s0 s"
  "conns_shrink s0 (s\<lparr>prisma := h\<rparr>) = conns_shrink s0 s"
  "conns_shrink s0 (s\<lparr>timeouts := i\<rparr>) = conns_shrink s0 s"
  "conns_shrink s0 (s\<lparr>nextHandle := j\<rparr>) = conns_shrink s0 s"
  "conns_shrink s0 (s\<lparr>pendingLeave := k\<rparr>) = conns_shrink s0 s"
  "conns_shrink s0 (s\<lparr>errorLog := l\<rparr>) = conns_shrink s0 s"
  by (simp_all add: conns_shrink_def connections_of_def)

lemma conns_shrink_prims [simp]:
  "conns_shrink s0 (update_ws s c f) = conns_shrink s0 s"
  "conns_shrink s0 (console_error s m) = conns_shrink s0 s"
  "conns_shrink s0 (sendResponse s c fr) = conns_shrink s0 s"
  "conns_shrink s0 (sendError s c n m) = conns_shrink s0 s"
  "conns_shrink s0 (ws_close s c cd m) = conns_shrink s0 s"
  "conns_shrink s0 (snd (setTimeout s now dl cb)) = conns_shrink s0 s"
  "conns_shrink s0 (clearTimeout s h) = conns_shrink s0 s"
  "conns_shrink s0 (timers_set s k rt) = conns_shrink s0 s"
  "conns_shrink s0 (timers_delete s k) = conns_shrink s0 s"
  "conns_shrink s0 (clear_room_timer k s) = conns_shrink s0 s"
  "conns_shrink s0 (cleanupRoomData s r) = conns_shrink s0 s"
  "conns_shrink s0 (schedule_next s now r i) = conns_shrink s0 s"
  by (simp_all add: conns_shrink_def connections_of_def)

lemma cs_broadcast [simp]: "conns_shrink s0 s \<Longrightarrow> conns_shrink s0 (broadcastToRoom s r m)"
  by (rule conns_shrink_trans [OF _ conns_shrink_broadcastToRoom])

lemma cs_cleanupConnection [simp]: "conns_shrink s0 s \<Longrightarrow> conns_shrink s0 (cleanupConnection s c)"
  by (rule conns_shrink_trans [OF _ conns_shrink_cleanupConnection])


lemma cs_leaveRoom_body [simp]: "conns_shrink s0 s \<Longrightarrow> conns_shrink s0 (leaveRoom_body s c now u r)"
  by (simp add: leaveRoom_body_def Let_def case_prod_beta split: sum.split option.split)

lemma cs_handleLeaveRoom [simp]: "conns_shrink s0 s \<Longrightarrow> conns_shrink s0 (handleLeaveRoom s c now p)"
  by (simp add: handleLeaveRoom_def Let_def case_prod_beta split: option.split)

lemma cs_run_pendingLeave [simp]: "conns_shrink s0 s \<Longrightarrow> conns_shrink s0 (run_pendingLeave s now i)"
  by (simp add: run_pendingLeave_def Let_def case_prod_beta split: option.split)

lemma cs_handleJoinRoom [simp]: "conns_shrink s0 s \<Longrightarrow> conns_shrink s0 (snd (handleJoinRoom s c now r))"
  by (simp add: handleJoinRoom_def Let_def case_prod_beta split: sum.split option.split)

lemma cs_handleStartQuiz [simp]:
  "conns_shrink s0 s \<Longrightarrow> conns_shrink s0 (snd (handleStartQuiz s c now r rnd dir))"
  by (simp add: handleStartQuiz_def Let_def case_prod_beta setTimeout_def split: sum.split option.split)

lemma cs_record_winner [simp]:
  "conns_shrink s0 s \<Longrightarrow> conns_shrink s0 (record_winner s now r i u q)"
  by (simp add: record_winner_def Let_def case_prod_beta split: option.split)

lemma cs_answer_and_claim [simp]:
  "conns_shrink s0 s \<Longrightarrow> conns_shrink s0 (snd (answer_and_claim s now r i ch u))"
  by (simp add: answer_and_claim_def Let_def case_prod_beta split: option.split)

lemma cs_handleSubmitAnswer [simp]:
  "conns_shrink s0 s \<Longrightarrow> conns_shrink s0 (snd (handleSubmitAnswer s c now r i ch))"
  by (simp add: handleSubmitAnswer_def Let_def case_prod_beta split: sum.split option.split bool.split)

lemma cs_handleQuestionExpiry [simp]:
  "conns_shrink s0 s \<Longrightarrow> conns_shrink s0 (handleQuestionExpiry s now r i)"
  by (simp add: handleQuestionExpiry_def Let_def case_prod_beta split: option.split)

lemma cs_handleNextQuestion [simp]:
  "conns_shrink s0 s \<Longrightarrow> conns_shrink s0 (handleNextQuestion s now r i)"
  by (simp add: handleNextQuestion_def Let_def case_prod_beta setTimeout_def split: option.split)

lemma cs_rate_participant [simp]:
  "conns_shrink s0 s \<Longrightarrow> conns_shrink s0 (snd (rate_participant tf pu s))"
  by (simp add: rate_participant_def Let_def case_prod_beta split: option.split)

lemma cs_rate_participants [simp]:
  "conns_shrink s0 s \<Longrightarrow> conns_shrink s0 (snd (rate_participants tf ps s))"
proof (induction ps arbitrary: s)
  case Nil
  then show ?case by simp
next
  case (Cons pu ps)
  from Cons.IH [OF cs_rate_participant [OF Cons.prems, of tf pu]]
  show ?case by (simp add: case_prod_beta)
qed

lemma cs_handleQuizFinished [simp]:
  "conns_shrink s0 s \<Longrightarrow> conns_shrink s0 (handleQuizFinished s r fetched tf)"
  using cs_rate_participants [of s0 s tf]
  by (simp add: handleQuizFinished_def Let_def case_prod_beta split: option.split)

lemma cs_handleMessage [simp]:
  "conns_shrink s0 s \<Longrightarrow> conns_shrink s0 (snd (handleMessage s c now m rnd dir))"
  by (simp add: handleMessage_def split: wsMessage.split)

lemma cs_checkRateLimit [simp]:
  "conns_shrink s0 (snd (checkRateLimit s u now)) = conns_shrink s0 s"
  by (simp add: checkRateLimit_def split: option.split)

lemma cs_on_message [simp]:
  "conns_shrink s0 s \<Longrightarrow> conns_shrink s0 (on_message s c now msg decode rnd dir)"
proof -
  assume a: "conns_shrink s0 s"
  have b: "\<And>u. conns_shrink s0 (snd (checkRateLimit s u now))" using a by simp
  show ?thesis
    using b cs_handleMessage [OF b]
    by (simp add: on_message_def Let_def case_prod_beta split: option.split decoded.split ws_error.split)
qed

lemma cs_fire_timeout [simp]:
  "conns_shrink s0 s \<Longrightarrow> conns_shrink s0 (fire_timeout s now h fetched tf)"
  by (simp add: fire_timeout_def Let_def case_prod_beta split: option.split callback.split)

lemma cs_cleanupStaleData [simp]:
  "conns_shrink s0 s \<Longrightarrow> conns_shrink s0 (cleanupStaleData s now)"
  unfolding cleanupStaleData_def conns_shrink_def connections_of_def
  by (auto split: option.splits)


lemma connection_bound_initial: "connection_bound (initial_state d)"
  by (simp add: connection_bound_def connections_of_def initial_state_def)

lemma length_set_add: "length (set_add x xs) \<le> Suc (length xs)"
  by (simp add: set_add_def)

lemma connection_bound_on_connection:
  assumes "connection_bound s"
  shows "connection_bound (on_connection s c now token verify)"
proof -
  have le: "\<And>u. length (connections_of s u) \<le> MAX_CONNECTIONS_PER_USER"
    using assms by (simp add: connection_bound_def)
  have "length (connections_of (on_connection s c now token verify) u) \<le> MAX_CONNECTIONS_PER_USER"
    for u
    using le [of u] le [of "the (verify (the token))"] length_set_add [of c "connections_of s (the (verify (the token)))"]
    by (auto simp: on_connection_def Let_def case_prod_beta connections_of_def setTimeout_def
          sendResponse_def sendError_def ws_close_def update_ws_def
          split: option.split)
  then show ?thesis by (simp add: connection_bound_def)
qed

lemma reachable_conns: "reachable s \<Longrightarrow> connection_bound s"
proof (induction rule: reachable.induct)
  case (reach_init d)
  show ?case by (rule connection_bound_initial)
next
  case (reach_connection s c now token verify)
  then show ?case by (simp add: connection_bound_on_connection)
next
  case (reach_message s c now message decode rnd dir)
  then show ?case using conns_shrink_bound [OF cs_on_message [OF conns_shrink_refl]] by blast
next
  case (reach_close s c)
  then show ?case using conns_shrink_bound [OF conns_shrink_cleanupConnection] by blast
next
  case (reach_timeout s now h fetched txFails)
  then show ?case using conns_shrink_bound [OF cs_fire_timeout [OF conns_shrink_refl]] by blast
next
  case (reach_leave s now i)
  then show ?case using conns_shrink_bound [OF cs_run_pendingLeave [OF conns_shrink_refl]] by blast
next
  case (reach_sweep s now)
  then show ?case using conns_shrink_bound [OF cs_cleanupStaleData [OF conns_shrink_refl]] by blast
qed

lemma on_connection_limit:
  assumes "tok \<noteq> []" and "verify tok = Some userId"
    and "length (connections_of s userId) \<ge> MAX_CONNECTIONS_PER_USER"
  shows "on_connection s c now (Some tok) verify =
           s\<lparr>sockets := (sockets s)(c := new_ws\<lparr>ws_readyState := CLOSING,
                ws_sent := [ErrorFrame 429 ''Too many connections for this user''],
                ws_closeArgs := Some (Some 1008, ''Connection limit exceeded'')\<rparr>)\<rparr>"
  using assms
  by (simp add: on_connection_def Let_def connections_of_def sendError_def sendResponse_def
        ws_close_def update_ws_def new_ws_def)

lemma three_connections_conns: "userConnections three_connections 7 = Some [''c1'', ''c2'', ''c3'']"
  by (simp add: three_connections_def on_connection_def initial_state_def Let_def case_prod_beta
        setTimeout_def sendResponse_def update_ws_def new_ws_def set_add_def MAX_CONNECTIONS_PER_USER_def)

lemma three_connections_reachable: "reachable three_connections"
  unfolding three_connections_def by (intro reachable.intros)

text \<open>
  Claim C6. In every reachable state each user has at most \<^verbatim>\<open>MAX_CONNECTIONS_PER_USER\<close> = 3
  entries in the connection registry. Attaching (the connection handler), detaching
  (\<^verbatim>\<open>cleanupConnection\<close>) and the periodic cleanup each keep the bound from any state that
  has it. When the user of a valid token already holds 3 connections, the connection
  handler attaches nothing: the new socket gets the error frame 429 and is closed with code
  1008 (policy violation), and the rest of the state is untouched.
\<close>

theorem connection_cap:
  "(reachable s \<longrightarrow> connection_bound s)
   \<and> (connection_bound s \<longrightarrow>
        connection_bound (on_connection s c now token verify)
        \<and> connection_bound (cleanupConnection s c)
        \<and> connection_bound (cleanupStaleData s now))
   \<and> (token = Some tok \<and> tok \<noteq> [] \<and> verify tok = Some userId
        \<and> length (connections_of s userId) \<ge> MAX_CONNECTIONS_PER_USER \<longrightarrow>
        on_connection s c now token verify =
          s\<lparr>sockets := (sockets s)(c := new_ws\<lparr>ws_readyState := CLOSING,
               ws_sent := [ErrorFrame 429 ''Too many connections for this user''],
               ws_closeArgs := Some (Some 1008, ''Connection limit exceeded'')\<rparr>)\<rparr>)"
  using reachable_conns [of s] connection_bound_on_connection [of s c now token verify]
    conns_shrink_bound [OF conns_shrink_cleanupConnection, of s c]
    conns_shrink_bound [OF cs_cleanupStaleData [OF conns_shrink_refl], of s now]
    on_connection_limit [of tok verify userId s c now]
  by blast

theorem connection_cap_witness:
  "reachable three_connections \<and> connection_bound three_connections
   \<and> length (connections_of three_connections 7) \<ge> MAX_CONNECTIONS_PER_USER
   \<and> connection_bound (on_connection three_connections ''c4'' 3 (Some ''t'') (\<lambda>_. Some 7))
   \<and> ws_sent (sockets (on_connection three_connections ''c4'' 3 (Some ''t'') (\<lambda>_. Some 7)) ''c4'')
       = [ErrorFrame 429 ''Too many connections for this user'']
   \<and> ws_closeArgs (sockets (on_connection three_connections ''c4'' 3 (Some ''t'') (\<lambda>_. Some 7)) ''c4'')
       = Some (Some 1008, ''Connection limit exceeded'')
   \<and> connections_of (on_connection three_connections ''c4'' 3 (Some ''t'') (\<lambda>_. Some 7)) 7
       = [''c1'', ''c2'', ''c3'']"
proof -
  let ?s' = "on_connection three_connections ''c4'' 3 (Some ''t'') (\<lambda>_. Some 7)"
  note cap = connection_cap [of three_connections "''c4''" 3 "Some ''t''" "\<lambda>_. Some 7" "''t''" 7]
  have r: "reachable three_connections" by (rule three_connections_reachable)
  have b: "connection_bound three_connections" using cap r by blast
  have l: "length (connections_of three_connections 7) \<ge> MAX_CONNECTIONS_PER_USER"
    by (simp add: connections_of_def three_connections_conns MAX_CONNECTIONS_PER_USER_def)
  have b': "connection_bound ?s'" using cap b by blast
  have e: "?s' = three_connections\<lparr>sockets := (sockets three_connections)(''c4'' :=
             new_ws\<lparr>ws_readyState := CLOSING,
               ws_sent := [ErrorFrame 429 ''Too many connections for this user''],
               ws_closeArgs := Some (Some 1008, ''Connection limit exceeded'')\<rparr>)\<rparr>"
    using cap l by simp
  have "ws_sent (sockets ?s' ''c4'') = [ErrorFrame 429 ''Too many connections for this user'']"
    and "ws_closeArgs (sockets ?s' ''c4'') = Some (Some 1008, ''Connection limit exceeded'')"
    and "connections_of ?s' 7 = [''c1'', ''c2'', ''c3'']"
    by (simp_all add: e connections_of_def three_connections_conns)
  with r b l b' show ?thesis by blast
qed
section \<open>Rate limiting and frame size\<close>

lemma rate_run_in_window:
  "rateLimitMap s u = Some (cnt, resetTime) \<Longrightarrow> \<forall>t \<in> set ts. t \<le> resetTime \<Longrightarrow>
   admitted (rate_run s u ts) = min (length ts) (RATE_LIMIT_MAX - cnt)"
proof (induction ts arbitrary: s cnt)
  case Nil
  show ?case by (simp add: admitted_def)
next
  case (Cons t ts)
  have t: "t \<le> resetTime" using Cons.prems(2) by simp
  show ?case
  proof (cases "cnt \<ge> RATE_LIMIT_MAX")
    case True
    with Cons.prems t have c: "checkRateLimit s u t = (False, s)"
      by (simp add: checkRateLimit_def)
    have "admitted (rate_run s u ts) = min (length ts) (RATE_LIMIT_MAX - cnt)"
      using Cons.IH [of s cnt] Cons.prems by simp
    with True c show ?thesis by (simp add: admitted_def)
  next
    case False
    let ?s' = "s\<lparr>rateLimitMap := (rateLimitMap s)(u \<mapsto> (cnt + 1, resetTime))\<rparr>"
    from False Cons.prems t have c: "checkRateLimit s u t = (True, ?s')"
      by (simp add: checkRateLimit_def)
    have "admitted (rate_run ?s' u ts) = min (length ts) (RATE_LIMIT_MAX - (cnt + 1))"
      using Cons.IH [of ?s' "cnt + 1"] Cons.prems by simp
    with False c show ?thesis by (simp add: admitted_def)
  qed
qed

lemma rate_run_window:
  assumes "window_closed s u t0" and "\<forall>t \<in> set ts. t \<le> t0 + RATE_LIMIT_WINDOW"
  shows "admitted (rate_run s u (t0 # ts)) = min (Suc (length ts)) RATE_LIMIT_MAX"
proof -
  let ?s' = "s\<lparr>rateLimitMap := (rateLimitMap s)(u \<mapsto> (1, t0 + RATE_LIMIT_WINDOW))\<rparr>"
  have c: "checkRateLimit s u t0 = (True, ?s')"
    using assms(1) by (auto simp: checkRateLimit_def window_closed_def split: option.splits)
  have "admitted (rate_run ?s' u ts) = min (length ts) (RATE_LIMIT_MAX - 1)"
    using rate_run_in_window [of ?s' u 1 "t0 + RATE_LIMIT_WINDOW" ts] assms(2) by simp
  with c show ?thesis by (simp add: admitted_def RATE_LIMIT_MAX_def)
qed

lemma on_message_rejected:
  assumes "ws_userId (sockets s c) = Some u" and "\<not> fst (checkRateLimit s u now)"
  shows "on_message s c now msg decode rnd dir = sendError s c 429 ''Rate limit exceeded''"
proof -
  have "checkRateLimit s u now = (False, s)"
    using assms(2) by (auto simp: checkRateLimit_def split: option.splits if_splits)
  with assms(1) show ?thesis by (simp add: on_message_def)
qed


lemma rl_leaveRoom_body [simp]: "rateLimitMap (leaveRoom_body s c now u r) = rateLimitMap s"
  by (simp add: leaveRoom_body_def Let_def split: sum.split option.split)

lemma rl_handleLeaveRoom [simp]: "rateLimitMap (handleLeaveRoom s c now p) = rateLimitMap s"
  by (simp add: handleLeaveRoom_def Let_def split: option.split)

lemma rl_handleJoinRoom [simp]: "rateLimitMap (snd (handleJoinRoom s c now r)) = rateLimitMap s"
  by (simp add: handleJoinRoom_def Let_def split: sum.split option.split)

lemma rl_handleStartQuiz [simp]:
  "rateLimitMap (snd (handleStartQuiz s c now r rnd dir)) = rateLimitMap s"
  by (simp add: handleStartQuiz_def Let_def case_prod_beta split: sum.split option.split)

lemma rl_record_winner [simp]: "rateLimitMap (record_winner s now r i u q) = rateLimitMap s"
  by (simp add: record_winner_def Let_def split: option.split)

lemma rl_answer_and_claim [simp]:
  "rateLimitMap (snd (answer_and_claim s now r i ch u)) = rateLimitMap s"
  by (simp add: answer_and_claim_def Let_def case_prod_beta split: option.split)

lemma rl_handleSubmitAnswer [simp]:
  "rateLimitMap (snd (handleSubmitAnswer s c now r i ch)) = rateLimitMap s"
  by (simp add: handleSubmitAnswer_def Let_def split: sum.split option.split bool.split)

lemma rl_handleMessage [simp]:
  "rateLimitMap (snd (handleMessage s c now m rnd dir)) = rateLimitMap s"
  by (simp add: handleMessage_def split: wsMessage.split)

lemma rl_on_message:
  assumes "ws_userId (sockets s c) = Some u"
  shows "rateLimitMap (on_message s c now msg decode rnd dir)
         = rateLimitMap (snd (checkRateLimit s u now))"
proof -
  have "rateLimitMap (case handleMessage s1 c now m rnd dir of
                        (None, s2) \<Rightarrow> s2
                      | (Some (WebSocketError code msg), s2) \<Rightarrow> sendError s2 c code msg)
        = rateLimitMap s1" for s1 m
    using rl_handleMessage [of s1 c now m rnd dir]
    by (cases "handleMessage s1 c now m rnd dir")
       (auto split: option.split ws_error.split)
  with assms show ?thesis
    by (simp add: on_message_def case_prod_beta Let_def split: decoded.split)
qed

lemma uid_update_ws [simp]:
  "(\<And>w. ws_userId (f w) = ws_userId w) \<Longrightarrow>
   ws_userId (sockets (update_ws s c f) c') = ws_userId (sockets s c')"
  by (simp add: update_ws_def)

lemma uid_prims [simp]:
  "ws_userId (sockets (sendResponse s c fr) c') = ws_userId (sockets s c')"
  "ws_userId (sockets (sendError s c n m) c') = ws_userId (sockets s c')"
  "ws_userId (sockets (ws_close s c cd m) c') = ws_userId (sockets s c')"
  "ws_userId (sockets (snd (checkRateLimit s u now)) c') = ws_userId (sockets s c')"
  by (simp_all add: sendResponse_def sendError_def ws_close_def update_ws_def checkRateLimit_def
        split: option.split)

lemma uid_leaveRoom_body [simp]:
  "ws_userId (sockets (leaveRoom_body s c now u r) c') = ws_userId (sockets s c')"
  by (simp add: leaveRoom_body_def Let_def split: sum.split option.split)

lemma uid_handleLeaveRoom [simp]:
  "ws_userId (sockets (handleLeaveRoom s c now p) c') = ws_userId (sockets s c')"
  by (simp add: handleLeaveRoom_def Let_def split: option.split)

lemma uid_handleJoinRoom [simp]:
  "ws_userId (sockets (snd (handleJoinRoom s c now r)) c') = ws_userId (sockets s c')"
  by (simp add: handleJoinRoom_def Let_def split: sum.split option.split)

lemma uid_handleStartQuiz [simp]:
  "ws_userId (sockets (snd (handleStartQuiz s c now r rnd dir)) c') = ws_userId (sockets s c')"
  by (simp add: handleStartQuiz_def Let_def case_prod_beta split: sum.split option.split)

lemma uid_record_winner [simp]:
  "ws_userId (sockets (record_winner s now r i u q) c') = ws_userId (sockets s c')"
  by (simp add: record_winner_def Let_def split: option.split)

lemma uid_answer_and_claim [simp]:
  "ws_userId (sockets (snd (answer_and_claim s now r i ch u)) c') = ws_userId (sockets s c')"
  by (simp add: answer_and_claim_def Let_def case_prod_beta split: option.split)

lemma uid_handleSubmitAnswer [simp]:
  "ws_userId (sockets (snd (handleSubmitAnswer s c now r i ch)) c') = ws_userId (sockets s c')"
  by (simp add: handleSubmitAnswer_def Let_def split: sum.split option.split bool.split)

lemma uid_handleMessage [simp]:
  "ws_userId (sockets (snd (handleMessage s c now m rnd dir)) c') = ws_userId (sockets s c')"
  by (simp add: handleMessage_def split: wsMessage.split)

lemma uid_on_message [simp]:
  "ws_userId (sockets (on_message s c now msg decode rnd dir) c') = ws_userId (sockets s c')"
proof -
  have "ws_userId (sockets (case handleMessage s1 c now m rnd dir of
                        (None, s2) \<Rightarrow> s2
                      | (Some (WebSocketError code msg), s2) \<Rightarrow> sendError s2 c code msg) c')
        = ws_userId (sockets s1 c')" for s1 m
    using uid_handleMessage [of s1 c now m rnd dir c']
    by (cases "handleMessage s1 c now m rnd dir")
       (auto split: option.split ws_error.split)
  then show ?thesis
    by (simp add: on_message_def case_prod_beta Let_def split: decoded.split option.split)
qed

lemma checkRateLimit_cong:
  "rateLimitMap s = rateLimitMap s' \<Longrightarrow>
   fst (checkRateLimit s u t) = fst (checkRateLimit s' u t)
   \<and> rateLimitMap (snd (checkRateLimit s u t)) = rateLimitMap (snd (checkRateLimit s' u t))"
  by (simp add: checkRateLimit_def split: option.split)

lemma rate_run_cong: "rateLimitMap s = rateLimitMap s' \<Longrightarrow> rate_run s u ts = rate_run s' u ts"
proof (induction ts arbitrary: s s')
  case Nil
  show ?case by simp
next
  case (Cons t ts)
  have c: "fst (checkRateLimit s u t) = fst (checkRateLimit s' u t)"
    and r: "rateLimitMap (snd (checkRateLimit s u t)) = rateLimitMap (snd (checkRateLimit s' u t))"
    using checkRateLimit_cong [OF Cons.prems, of u t] by simp_all
  from c Cons.IH [OF r] show ?case by simp
qed

lemma receive_verdicts_rate_run:
  "\<forall>f \<in> set frames. ws_userId (sockets s (fst f)) = Some u \<Longrightarrow>
   receive_verdicts s u frames decode rnd dir = rate_run s u (map (\<lambda>f. fst (snd f)) frames)"
proof (induction frames arbitrary: s)
  case Nil
  show ?case by simp
next
  case (Cons f frames)
  obtain c now msg where f: "f = (c, now, msg)" by (cases f) auto
  have u: "ws_userId (sockets s c) = Some u" using Cons.prems f by simp
  have "\<forall>f \<in> set frames. ws_userId (sockets (on_message s c now msg decode rnd dir) (fst f)) = Some u"
    using Cons.prems by simp
  from Cons.IH [OF this]
  have "receive_verdicts (on_message s c now msg decode rnd dir) u frames decode rnd dir
        = rate_run (snd (checkRateLimit s u now)) u (map (\<lambda>f. fst (snd f)) frames)"
    using rate_run_cong [OF rl_on_message [OF u, of now msg decode rnd dir]] by simp
  with f show ?case by simp
qed

lemma two_connections_sockets:
  "sockets two_connections ''c1'' = new_ws\<lparr>ws_userId := Some 7, ws_sent := [Connected ''c1'' 7]\<rparr>"
  "sockets two_connections ''c2'' = new_ws\<lparr>ws_userId := Some 7, ws_sent := [Connected ''c2'' 7]\<rparr>"
  "rateLimitMap two_connections = Map.empty"
  by (simp_all add: two_connections_def eval_defs)

lemma ten_frames_state:
  "sockets ten_frames ''c1'' = new_ws\<lparr>ws_userId := Some 7,
      ws_sent := Connected ''c1'' 7 # replicate 10 (ErrorFrame 400 ''Invalid JSON format'')\<rparr>"
  "sockets ten_frames ''c2'' = new_ws\<lparr>ws_userId := Some 7, ws_sent := [Connected ''c2'' 7]\<rparr>"
  "rateLimitMap ten_frames 7 = Some (10, 1100)"
  by (simp_all add: ten_frames_def replicate_10 two_connections_sockets eval_defs)

text \<open>
  Claim C5, as the code has it. The counter belongs to the user and is shared by all
  connections of the user. It is a fixed window: the first frame after the reset time of the
  last window opens a window of \<^verbatim>\<open>RATE_LIMIT_WINDOW\<close> = 1000 ms, and of the frames of the
  user that arrive in it (up to and including the reset time), on whichever connection, the
  first \<^verbatim>\<open>RATE_LIMIT_MAX\<close> = 10 are admitted and no other. A frame that is not admitted
  is answered by the error frame 429 and has no other effect: nothing else in the state
  changes and no socket changes its ready state.
\<close>

theorem rate_limit_fixed_window:
  "(window_closed s u t0
    \<and> (\<forall>f \<in> set ((c0, t0, m0) # frames).
          ws_userId (sockets s (fst f)) = Some u \<and> fst (snd f) \<le> t0 + RATE_LIMIT_WINDOW)
    \<longrightarrow> admitted (receive_verdicts s u ((c0, t0, m0) # frames) decode rnd dir)
        = min (Suc (length frames)) RATE_LIMIT_MAX)
   \<and> (ws_userId (sockets s c) = Some u \<and> \<not> fst (checkRateLimit s u now)
    \<longrightarrow> on_message s c now message decode rnd dir
          = sendResponse s c (ErrorFrame 429 ''Rate limit exceeded'')
        \<and> (\<forall>c'. ws_readyState (sockets (on_message s c now message decode rnd dir) c')
                 = ws_readyState (sockets s c')))"
proof (intro conjI impI)
  assume a: "window_closed s u t0
    \<and> (\<forall>f \<in> set ((c0, t0, m0) # frames).
          ws_userId (sockets s (fst f)) = Some u \<and> fst (snd f) \<le> t0 + RATE_LIMIT_WINDOW)"
  then have "receive_verdicts s u ((c0, t0, m0) # frames) decode rnd dir
             = rate_run s u (map (\<lambda>f. fst (snd f)) ((c0, t0, m0) # frames))"
    by (intro receive_verdicts_rate_run) blast
  moreover have "admitted (rate_run s u (t0 # map (\<lambda>f. fst (snd f)) frames))
                 = min (Suc (length (map (\<lambda>f. fst (snd f)) frames))) RATE_LIMIT_MAX"
    using a by (intro rate_run_window) auto
  ultimately show "admitted (receive_verdicts s u ((c0, t0, m0) # frames) decode rnd dir)
                   = min (Suc (length frames)) RATE_LIMIT_MAX"
    by simp
next
  assume b: "ws_userId (sockets s c) = Some u \<and> \<not> fst (checkRateLimit s u now)"
  then show e: "on_message s c now message decode rnd dir
                = sendResponse s c (ErrorFrame 429 ''Rate limit exceeded'')"
    using on_message_rejected [of s c u now message decode rnd dir] by (simp add: sendError_def)
  show "\<forall>c'. ws_readyState (sockets (on_message s c now message decode rnd dir) c')
             = ws_readyState (sockets s c')"
    unfolding e by (simp add: sendResponse_def update_ws_def)
qed

theorem rate_limit_fixed_window_witness:
  "window_closed two_connections 7 0
   \<and> admitted (receive_verdicts two_connections 7
        ((''c1'', 0, ''x'') # replicate 5 (''c2'', 500, ''x'') @ replicate 6 (''c1'', 1000, ''x''))
        (\<lambda>_. SyntaxError) 0 Asc) = 10
   \<and> \<not> fst (checkRateLimit ten_frames 7 100)
   \<and> ws_sent (sockets (on_message ten_frames ''c2'' 100 ''x'' (\<lambda>_. SyntaxError) 0 Asc) ''c2'')
       = [Connected ''c2'' 7, ErrorFrame 429 ''Rate limit exceeded'']
   \<and> ws_readyState (sockets (on_message ten_frames ''c2'' 100 ''x'' (\<lambda>_. SyntaxError) 0 Asc) ''c2'')
       = OPEN"
proof -
  have w: "window_closed two_connections 7 0"
    by (simp add: window_closed_def two_connections_sockets)
  have r: "\<not> fst (checkRateLimit ten_frames 7 100)"
    by (simp add: checkRateLimit_def ten_frames_state CONFIG_defs)
  note t1 = rate_limit_fixed_window [where s = two_connections and u = 7 and ?t0.0 = 0
      and ?c0.0 = "''c1''" and ?m0.0 = "''x''" and decode = "\<lambda>_. SyntaxError" and rnd = 0 and dir = Asc
      and frames = "replicate 5 (''c2'', 500, ''x'') @ replicate 6 (''c1'', 1000, ''x'')"]
  note t2 = rate_limit_fixed_window [where s = ten_frames and u = 7 and c = "''c2''" and now = 100
      and message = "''x''" and decode = "\<lambda>_. SyntaxError" and rnd = 0 and dir = Asc]
  have "admitted (receive_verdicts two_connections 7
        ((''c1'', 0, ''x'') # replicate 5 (''c2'', 500, ''x'') @ replicate 6 (''c1'', 1000, ''x''))
        (\<lambda>_. SyntaxError) 0 Asc) = 10"
    using t1 w by (simp add: two_connections_sockets new_ws_def CONFIG_defs)
  moreover have "on_message ten_frames ''c2'' 100 ''x'' (\<lambda>_. SyntaxError) 0 Asc
                 = sendResponse ten_frames ''c2'' (ErrorFrame 429 ''Rate limit exceeded'')"
    using t2 r by (simp add: ten_frames_state new_ws_def)
  ultimately show ?thesis
    using w r by (simp add: sendResponse_def update_ws_def ten_frames_state new_ws_def)
qed

text \<open>
  Claim C5 as stated fails twice. The first frame ever sent on connection \<open>c2\<close> is refused
  because ten frames have arrived on the other connection of the same user: the counter is
  not one per connection. And all of twenty frames are admitted of which nineteen arrive
  within the two milliseconds 1000 and 1001: the window does not slide.
\<close>

theorem rate_limit_counterexample:
  "ws_sent (sockets (receive two_connections
       (replicate 10 (''c1'', 100, ''x'') @ [(''c2'', 100, ''x'')]) (\<lambda>_. SyntaxError) 0 Asc) ''c2'')
     = [Connected ''c2'' 7, ErrorFrame 429 ''Rate limit exceeded'']
   \<and> receive_verdicts two_connections 7
        ((''c1'', 0, ''x'') # replicate 9 (''c1'', 1000, ''x'') @ replicate 10 (''c1'', 1001, ''x''))
        (\<lambda>_. SyntaxError) 0 Asc = replicate 20 True"
proof -
  have "receive_verdicts two_connections 7
        ((''c1'', 0, ''x'') # replicate 9 (''c1'', 1000, ''x'') @ replicate 10 (''c1'', 1001, ''x''))
        (\<lambda>_. SyntaxError) 0 Asc
        = rate_run two_connections 7 (0 # replicate 9 1000 @ replicate 10 1001)"
    by (subst receive_verdicts_rate_run [where u = 7])
       (simp_all add: two_connections_sockets new_ws_def)
  also have "\<dots> = replicate 10 True @ replicate 10 True"
    by (simp add: replicate_9 replicate_10 two_connections_sockets checkRateLimit_def CONFIG_defs)
  also have "\<dots> = replicate 20 True"
    by (simp flip: replicate_add)
  finally have b: "receive_verdicts two_connections 7
        ((''c1'', 0, ''x'') # replicate 9 (''c1'', 1000, ''x'') @ replicate 10 (''c1'', 1001, ''x''))
        (\<lambda>_. SyntaxError) 0 Asc = replicate 20 True" .
  have a: "ws_sent (sockets (receive two_connections
       (replicate 10 (''c1'', 100, ''x'') @ [(''c2'', 100, ''x'')]) (\<lambda>_. SyntaxError) 0 Asc) ''c2'')
     = [Connected ''c2'' 7, ErrorFrame 429 ''Rate limit exceeded'']"
    by (simp add: replicate_10 two_connections_sockets eval_defs)
  from a b show ?thesis by (rule conjI)
qed
section \<open>Oversized frames\<close>



section \<open>Submitting answers\<close>

text \<open>The steps of a submission that has passed the checks.\<close>

lemma submit_checked:
  assumes "participant_in s c now r u" and "question_active s now r i"
    and "0 \<le> ch" and "ch \<le> 3"
    and "redis_get (redis s) now (key_answered r i u) = Inr h"
  shows "handleSubmitAnswer s c now r i ch
         = (if truthy h then (None, s) else answer_and_claim s now r i ch u)"
  using assms
  by (simp add: handleSubmitAnswer_def participant_in_def question_active_def)

lemma redis_get_None_exists:
  "redis_get r now k = Inr None \<Longrightarrow> \<not> redis_exists r now k"
  by (auto simp: redis_get_def redis_exists_def split: option.splits prod.splits redis_value.splits)


lemma answer_late:
  assumes "\<not> redis_exists (redis s) now (key_answered r i u)"
    and "cached_question s r i = Some q" and "q_correctIdx q = ch"
    and "redis_exists (redis s) now (key_firstUser r i)"
  shows "answer_and_claim s now r i ch u
         = (None, s\<lparr>redis := redis_set_ex (redis s) now (key_answered r i u) ''1'' REDIS_TTL\<rparr>)"
  using assms
  by (simp add: answer_and_claim_def redis_set_ex_nx_def cached_question_def redis_exists_def
        redis_live_def redis_set_ex_def)

lemma answer_first:
  assumes "\<not> redis_exists (redis s) now (key_answered r i u)"
    and "cached_question s r i = Some q" and "q_correctIdx q = ch"
    and "\<not> redis_exists (redis s) now (key_firstUser r i)"
  shows "answer_and_claim s now r i ch u
         = (None, record_winner
              (s\<lparr>redis := redis_set_ex
                   (redis_set_ex (redis s) now (key_answered r i u) ''1'' REDIS_TTL)
                   now (key_firstUser r i) (toString_nat u) REDIS_TTL\<rparr>) now r i u q)"
  using assms
  by (simp add: answer_and_claim_def redis_set_ex_nx_def cached_question_def redis_exists_def
        redis_live_def redis_set_ex_def)

lemma answer_no_question:
  assumes "\<not> redis_exists (redis s) now (key_answered r i u)"
    and "cached_question s r i = None"
  shows "answer_and_claim s now r i ch u
         = (Some (WebSocketError 500 ''Question not found''),
            s\<lparr>redis := redis_set_ex (redis s) now (key_answered r i u) ''1'' REDIS_TTL\<rparr>)"
  using assms
  by (simp add: answer_and_claim_def redis_set_ex_nx_def cached_question_def)


lemma redis_cong:
  "r k = r' k \<Longrightarrow> redis_live r now k = redis_live r' now k"
  "r k = r' k \<Longrightarrow> redis_get r now k = redis_get r' now k"
  "r k = r' k \<Longrightarrow> redis_exists r now k = redis_exists r' now k"
  "r k = r' k \<Longrightarrow> redis_sismember r now k m = redis_sismember r' now k m"
  by (simp_all add: redis_live_def redis_get_def redis_exists_def redis_sismember_def)

lemma redis_set_ex_other [simp]: "k' \<noteq> k \<Longrightarrow> redis_set_ex r now k v ttl k' = r k'"
  by (simp add: redis_set_ex_def)

lemma redis_set_ex_same [simp]: "redis_set_ex r now k v ttl k = Some (RString v, Some (now + ttl * 1000))"
  by (simp add: redis_set_ex_def)

lemma redis_entry_live:
  "r k = Some (RString v, Some e) \<Longrightarrow> now < e \<Longrightarrow>
   redis_get r now k = Inr (Some v) \<and> redis_exists r now k"
  by (simp add: redis_get_def redis_exists_def redis_live_def)

lemma rd_record_winner [simp]: "redis (record_winner s now r i u q) = redis s"
  by (simp add: record_winner_def Let_def split: option.split)

lemma sent_record_winner:
  "ws_sent (sockets (record_winner s now r i u q) c)
   = ws_sent (sockets s c) @ (if receives s r c then [EndQuestion i (q_correctIdx q) (Some u)] else [])"
  by (simp add: record_winner_def Let_def sent_broadcastToRoom split: option.split)

lemma room_record_winner [simp]:
  "ws_currentRoom (sockets (record_winner s now r i u q) c) = ws_currentRoom (sockets s c)"
  "ws_userId (sockets (record_winner s now r i u q) c) = ws_userId (sockets s c)"
  by (simp_all add: record_winner_def Let_def split: option.split)

lemma prisma_record_winner:
  "prisma (record_winner s now r i u q)
   = (case claim_transaction (prisma s) now r i u of Some d \<Rightarrow> d | None \<Rightarrow> prisma s)"
  by (simp add: record_winner_def Let_def split: option.split)

lemma qc_record_winner [simp]: "questionsCache (record_winner s now r i u q) = questionsCache s"
  by (simp add: record_winner_def Let_def split: option.split)

text \<open>What any submission leaves alone.\<close>

lemma redis_answer_and_claim:
  "k \<noteq> key_answered r i u \<Longrightarrow> k \<noteq> key_firstUser r i \<Longrightarrow>
   redis (snd (answer_and_claim s now r i ch u)) k = redis s k"
  by (simp add: answer_and_claim_def Let_def case_prod_beta redis_set_ex_nx_def split: option.split)

lemma redis_handleSubmitAnswer:
  "ws_userId (sockets s c) = Some u \<Longrightarrow> k \<noteq> key_answered r i u \<Longrightarrow> k \<noteq> key_firstUser r i \<Longrightarrow>
   redis (snd (handleSubmitAnswer s c now r i ch)) k = redis s k"
  by (simp add: handleSubmitAnswer_def redis_answer_and_claim split: sum.split option.split bool.split)

lemma room_answer_and_claim [simp]:
  "ws_currentRoom (sockets (snd (answer_and_claim s now r i ch u)) c) = ws_currentRoom (sockets s c)"
  "ws_userId (sockets (snd (answer_and_claim s now r i ch u)) c) = ws_userId (sockets s c)"
  "questionsCache (snd (answer_and_claim s now r i ch u)) = questionsCache s"
  by (simp_all add: answer_and_claim_def Let_def case_prod_beta split: option.split)

lemma room_handleSubmitAnswer [simp]:
  "ws_currentRoom (sockets (snd (handleSubmitAnswer s c now r i ch)) c') = ws_currentRoom (sockets s c')"
  "ws_userId (sockets (snd (handleSubmitAnswer s c now r i ch)) c') = ws_userId (sockets s c')"
  "questionsCache (snd (handleSubmitAnswer s c now r i ch)) = questionsCache s"
  by (simp_all add: handleSubmitAnswer_def split: sum.split option.split bool.split)

lemma answered_after_answer_and_claim:
  "\<not> redis_exists (redis s) now (key_answered r i u) \<Longrightarrow>
   redis (snd (answer_and_claim s now r i ch u)) (key_answered r i u)
   = Some (RString ''1'', Some (now + REDIS_TTL * 1000))"
  by (simp add: answer_and_claim_def Let_def case_prod_beta redis_set_ex_nx_def split: option.split)

lemma participant_in_cong:
  assumes "ws_currentRoom (sockets s' c) = ws_currentRoom (sockets s c)"
    and "ws_userId (sockets s' c) = ws_userId (sockets s c)"
    and "redis s' (key_participants r) = redis s (key_participants r)"
  shows "participant_in s' c now r u = participant_in s c now r u"
  using assms by (simp add: participant_in_def redis_sismember_def redis_live_def)

lemma question_active_cong:
  assumes "redis s' (key_currentQuestion r) = redis s (key_currentQuestion r)"
    and "redis s' (key_expired r i) = redis s (key_expired r i)"
  shows "question_active s' now r i = question_active s now r i"
  using assms by (simp add: question_active_def redis_get_def redis_exists_def redis_live_def)

lemma participant_in_after_submit:
  "participant_in s c now r u \<Longrightarrow>
   participant_in (snd (handleSubmitAnswer s c now0 r i ch)) c' now' r u' = participant_in s c' now' r u'"
  by (rule participant_in_cong) (simp_all add: redis_handleSubmitAnswer participant_in_def)

lemma question_active_after_submit:
  "participant_in s c now r u \<Longrightarrow>
   question_active (snd (handleSubmitAnswer s c now0 r i ch)) now' r i = question_active s now' r i"
  by (rule question_active_cong) (simp_all add: redis_handleSubmitAnswer participant_in_def)






lemma el_record_winner:
  "errorLog (record_winner s now r i u q)
   = errorLog s @ (case claim_transaction (prisma s) now r i u of
                     Some d \<Rightarrow> [] | None \<Rightarrow> [''Database error recording answer''])"
  by (simp add: record_winner_def Let_def console_error_def split: option.split)

lemma timeouts_record_winner:
  "timeouts (record_winner s now r i u q) (nextHandle s) = Some (now + NEXT_QUESTION_DELAY, NextTimer r i)"
proof -
  define s1 where "s1 = (case claim_transaction (prisma s) now r i u of
                           Some d \<Rightarrow> s\<lparr>prisma := d\<rparr>
                         | None \<Rightarrow> console_error s ''Database error recording answer'')"
  define s3 where "s3 = broadcastToRoom (clear_room_timer (r @ '':'' @ toString_int i) s1) r
                          (EndQuestion i (q_correctIdx q) (Some u))"
  have nh: "nextHandle s3 = nextHandle s"
    by (simp add: s3_def s1_def split: option.split)
  have rw: "record_winner s now r i u q = schedule_next s3 now r i"
    by (simp add: record_winner_def Let_def s3_def s1_def)
  show ?thesis
    using timeouts_schedule_next [of s3 now r i] by (simp add: rw nh)
qed

lemma receives_record_winner [simp]: "receives (record_winner s now r i u q) r' c = receives s r' c"
  by (simp add: record_winner_def Let_def split: option.split)

text \<open>The submission that wins.\<close>

lemma winning_submission:
  assumes "participant_in s c now r u" and "question_active s now r i"
    and "redis_get (redis s) now (key_answered r i u) = Inr None"
    and "\<not> redis_exists (redis s) now (key_firstUser r i)"
    and "cached_question s r i = Some q" and "0 \<le> q_correctIdx q" and "q_correctIdx q \<le> 3"
  shows "handleSubmitAnswer s c now r i (q_correctIdx q)
         = (None, record_winner
              (s\<lparr>redis := redis_set_ex
                   (redis_set_ex (redis s) now (key_answered r i u) ''1'' REDIS_TTL)
                   now (key_firstUser r i) (toString_nat u) REDIS_TTL\<rparr>) now r i u q)"
  using submit_checked [OF assms(1,2,6,7,3)]
    answer_first [OF redis_get_None_exists [OF assms(3)] assms(5) refl assms(4)] by simp

lemma sent_handleNextQuestion:
  "cached_question s r i = Some q \<Longrightarrow>
   ws_sent (sockets (handleNextQuestion s now r i) c)
   = ws_sent (sockets s c)
     @ (if receives s r c then [NextQuestion i q now (now + QUESTION_TIME_LIMIT)] else [])"
  by (simp add: handleNextQuestion_def Let_def case_prod_beta sent_broadcastToRoom)

lemma cached_question_cong:
  "questionsCache s' = questionsCache s \<Longrightarrow> cached_question s' r i = cached_question s r i"
  by (simp add: cached_question_def)

lemma fire_next_timer:
  "timeouts s h = Some (due, NextTimer r i) \<Longrightarrow> due \<le> now \<Longrightarrow> i < int QUESTIONS_PER_QUIZ - 1 \<Longrightarrow>
   fire_timeout s now h fetched tf
   = handleNextQuestion (s\<lparr>timeouts := (timeouts s)(h := None)\<rparr>) now r (i + 1)"
  by (simp add: fire_timeout_def)




section \<open>A failed claim transaction\<close>

text \<open>
  Claim C9, as the code has it. When the transaction of a winning claim fails, the failure is
  logged and that is all: the store is left as it was (no claim row, no score), no second
  attempt is made, and the handler goes on as after a successful claim. It returns without
  an error, the room's sockets get the \<^verbatim>\<open>endQuestion\<close> frame naming the winner and no other
  frame, the timer for the next question is armed and the question cache is kept, so the
  quiz continues.
\<close>

theorem failed_claim_continues:
  assumes part: "participant_in s c now r u" and act: "question_active s now r i"
    and fresh: "redis_get (redis s) now (key_answered r i u) = Inr None"
    and open_q: "\<not> redis_exists (redis s) now (key_firstUser r i)"
    and q: "cached_question s r i = Some q" "0 \<le> q_correctIdx q" "q_correctIdx q \<le> 3"
    and fails: "claim_transaction (prisma s) now r i u = None"
  shows "fst (handleSubmitAnswer s c now r i (q_correctIdx q)) = None
         \<and> prisma (snd (handleSubmitAnswer s c now r i (q_correctIdx q))) = prisma s
         \<and> errorLog (snd (handleSubmitAnswer s c now r i (q_correctIdx q)))
           = errorLog s @ [''Database error recording answer'']
         \<and> (\<forall>c'. ws_sent (sockets (snd (handleSubmitAnswer s c now r i (q_correctIdx q))) c')
                 = ws_sent (sockets s c')
                   @ (if receives s r c' then [EndQuestion i (q_correctIdx q) (Some u)] else []))
         \<and> timeouts (snd (handleSubmitAnswer s c now r i (q_correctIdx q))) (nextHandle s)
           = Some (now + NEXT_QUESTION_DELAY, NextTimer r i)
         \<and> questionsCache (snd (handleSubmitAnswer s c now r i (q_correctIdx q))) = questionsCache s"
proof -
  let ?s0 = "s\<lparr>redis := redis_set_ex (redis_set_ex (redis s) now (key_answered r i u) ''1'' REDIS_TTL)
                   now (key_firstUser r i) (toString_nat u) REDIS_TTL\<rparr>"
  have run: "handleSubmitAnswer s c now r i (q_correctIdx q) = (None, record_winner ?s0 now r i u q)"
    by (rule winning_submission [OF part act fresh open_q q])
  have t: "timeouts (record_winner ?s0 now r i u q) (nextHandle ?s0)
           = Some (now + NEXT_QUESTION_DELAY, NextTimer r i)"
    by (rule timeouts_record_winner)
  show ?thesis
    unfolding run using fails t
    by (simp add: prisma_record_winner el_record_winner sent_record_winner)
qed

theorem failed_claim_continues_witness:
  "participant_in asking_again ''c1'' 7000 ''r1'' 1 \<and> question_active asking_again 7000 ''r1'' 0
   \<and> claim_transaction (prisma asking_again) 7000 ''r1'' 0 1 = None
   \<and> fst (handleSubmitAnswer asking_again ''c1'' 7000 ''r1'' 0 2) = None
   \<and> prisma (snd (handleSubmitAnswer asking_again ''c1'' 7000 ''r1'' 0 2)) = prisma asking_again
   \<and> errorLog (snd (handleSubmitAnswer asking_again ''c1'' 7000 ''r1'' 0 2))
       = [''Database error recording answer'']
   \<and> timeouts (snd (handleSubmitAnswer asking_again ''c1'' 7000 ''r1'' 0 2)) 4
       = Some (10000, NextTimer ''r1'' 0)"
proof -
  have p: "participant_in asking_again ''c1'' 7000 ''r1'' 1" by (rule asking_again_participants) simp
  have a: "question_active asking_again 7000 ''r1'' 0" by (simp add: asking_again_active)
  have k: "q_correctIdx (example_question 1) = 2" by (simp add: example_question_def)
  have f: "claim_transaction (prisma asking_again) 7000 ''r1'' 0 1 = None"
    by (rule asking_again_transaction)
  note t = failed_claim_continues [OF p a asking_again_fresh(1) asking_again_fresh(2)
      asking_again_question _ _ f, unfolded k]
  have "fst (handleSubmitAnswer asking_again ''c1'' 7000 ''r1'' 0 2) = None
   \<and> prisma (snd (handleSubmitAnswer asking_again ''c1'' 7000 ''r1'' 0 2)) = prisma asking_again
   \<and> errorLog (snd (handleSubmitAnswer asking_again ''c1'' 7000 ''r1'' 0 2))
       = errorLog asking_again @ [''Database error recording answer'']
   \<and> timeouts (snd (handleSubmitAnswer asking_again ''c1'' 7000 ''r1'' 0 2)) (nextHandle asking_again)
       = Some (7000 + NEXT_QUESTION_DELAY, NextTimer ''r1'' 0)"
    using t by simp
  moreover have "errorLog asking_again = []" "nextHandle asking_again = 4"
    by (simp_all add: asking_again_def asking_def)
  ultimately show ?thesis using p a f by (simp add: NEXT_QUESTION_DELAY_def)
qed

text \<open>
  Claim C9 as stated fails. In a second quiz of the room the store still holds the claim
  for question 0 of the first quiz, so the transaction of the new winner violates the unique
  index. The room is not treated as dead and no \<^verbatim>\<open>quizFinished\<close> is sent: the sockets get
  the \<^verbatim>\<open>endQuestion\<close> naming the winner and, when the next timer fires, question 1.
\<close>

theorem failed_claim_counterexample:
  "claim_transaction (prisma asking_again) 7000 ''r1'' 0 1 = None
   \<and> ws_sent (sockets (fire_timeout (snd (handleSubmitAnswer asking_again ''c1'' 7000 ''r1'' 0 2))
                 10000 4 None (\<lambda>_. False)) ''c2'')
       = ws_sent (sockets asking_again ''c2'')
         @ [EndQuestion 0 2 (Some 1), NextQuestion 1 (example_question 2) 10000 20000]"
proof -
  let ?s0 = "asking_again\<lparr>redis := redis_set_ex
               (redis_set_ex (redis asking_again) 7000 (key_answered ''r1'' 0 1) ''1'' REDIS_TTL)
               7000 (key_firstUser ''r1'' 0) (toString_nat 1) REDIS_TTL\<rparr>"
  let ?s1 = "record_winner ?s0 7000 ''r1'' 0 1 (example_question 1)"
  have k: "q_correctIdx (example_question 1) = 2" by (simp add: example_question_def)
  have run: "handleSubmitAnswer asking_again ''c1'' 7000 ''r1'' 0 2 = (None, ?s1)"
    using winning_submission [OF asking_again_participants(1) asking_again_active
        asking_again_fresh(1) asking_again_fresh(2) asking_again_question, of 7000]
    by (simp add: k)
  have nh: "nextHandle asking_again = 4" by (simp add: asking_again_def asking_def)
  have t: "timeouts ?s1 4 = Some (10000, NextTimer ''r1'' 0)"
    using timeouts_record_winner [of ?s0 7000 "''r1''" 0 1 "example_question 1"]
    by (simp add: nh NEXT_QUESTION_DELAY_def)
  have fire: "fire_timeout ?s1 10000 4 None (\<lambda>_. False)
              = handleNextQuestion (?s1\<lparr>timeouts := (timeouts ?s1)(4 := None)\<rparr>) 10000 ''r1'' 1"
    using fire_next_timer [OF t, of 10000 None "\<lambda>_. False"] by (simp add: QUESTIONS_PER_QUIZ_def)
  have q1: "cached_question (?s1\<lparr>timeouts := (timeouts ?s1)(4 := None)\<rparr>) ''r1'' 1
            = Some (example_question 2)"
    by (simp add: cached_question_def asking_again_def asking_def numeral_2_eq_2)
  show ?thesis
    unfolding run snd_conv fire
    by (simp add: sent_handleNextQuestion [OF q1] sent_record_winner asking_again_receives
          asking_again_transaction QUESTION_TIME_LIMIT_def del: One_nat_def)
qed

section \<open>The question deadline\<close>

lemma timeouts_handleNextQuestion:
  assumes "cached_question s r i = Some q"
  shows "timeouts (handleNextQuestion s now r i) (nextHandle s)
         = Some (now + QUESTION_TIME_LIMIT, QuestionTimer r i)"
proof -
  define s2 where "s2 = broadcastToRoom
      (s\<lparr>redis := redis_set_ex (redis s) now (key_currentQuestion r) (toString_int i) REDIS_TTL\<rparr>) r
      (NextQuestion i q now (now + QUESTION_TIME_LIMIT))"
  have nh: "nextHandle s2 = nextHandle s" by (simp add: s2_def)
  have "handleNextQuestion s now r i
        = timers_set (snd (setTimeout s2 now QUESTION_TIME_LIMIT (QuestionTimer r i)))
            (r @ '':'' @ toString_int i)
            \<lparr>rt_timer = fst (setTimeout s2 now QUESTION_TIME_LIMIT (QuestionTimer r i)),
             rt_questionIndex = i, rt_roomId = r\<rparr>"
    using assms by (simp add: handleNextQuestion_def Let_def case_prod_beta s2_def)
  then show ?thesis by (simp add: setTimeout_def timers_set_def nh)
qed

lemma expired_after_handleQuestionExpiry:
  assumes "cached_question s r i = Some q" and "\<not> redis_exists (redis s) now (key_firstUser r i)"
    and "now' < now + REDIS_TTL * 1000"
  shows "redis_exists (redis (handleQuestionExpiry s now r i)) now' (key_expired r i)"
  using assms
  by (simp add: handleQuestionExpiry_def Let_def redis_exists_def redis_live_def redis_set_ex_def)

lemma submit_expired_rejected:
  assumes "redis_exists (redis s) now (key_expired r i)"
  shows "fst (handleSubmitAnswer s c now r i ch) \<noteq> None
         \<and> (snd (handleSubmitAnswer s c now r i ch) = s
            \<or> snd (handleSubmitAnswer s c now r i ch) = console_error s ''Error submitting answer'')"
  using assms
  by (simp add: handleSubmitAnswer_def bool.case_eq_if split: sum.split option.split)

lemma submit_expired_410:
  assumes "participant_in s c now r u" and "0 \<le> i" and "i < int QUESTIONS_PER_QUIZ"
    and "0 \<le> ch" and "ch \<le> 3"
    and "redis_get (redis s) now (key_currentQuestion r) = Inr (Some (toString_int i))"
    and "redis_get (redis s) now (key_answered r i u) = Inr h"
    and "redis_exists (redis s) now (key_expired r i)"
  shows "handleSubmitAnswer s c now r i ch = (Some (WebSocketError 410 ''Question has expired''), s)"
  using assms
  by (simp add: handleSubmitAnswer_def participant_in_def)

text \<open>
  Claim C4, as the code has it. A question that is asked at time \<open>now\<close> is announced with
  \<^verbatim>\<open>startedAt\<close> = \<open>now\<close> and \<^verbatim>\<open>expiresAt\<close> = \<open>now\<close> + \<^verbatim>\<open>QUESTION_TIME_LIMIT\<close>, and its expiry timer is
  armed for that time. The handler does not compare the arrival time of an answer with
  \<^verbatim>\<open>expiresAt\<close>: what closes the question is the expired flag, which the expiry handler sets
  when it runs and finds no winner. Once the flag is set, a \<^verbatim>\<open>submitAnswer\<close> for the question
  is answered by an error (410 when the other checks pass) and counts for nothing: the
  state is unchanged, but for the log line of an internal error.
\<close>

theorem expired_flag_gates_answers:
  "(cached_question s r i = Some q \<longrightarrow>
      (\<forall>c. ws_sent (sockets (handleNextQuestion s now r i) c)
           = ws_sent (sockets s c)
             @ (if receives s r c then [NextQuestion i q now (now + QUESTION_TIME_LIMIT)] else []))
      \<and> timeouts (handleNextQuestion s now r i) (nextHandle s)
        = Some (now + QUESTION_TIME_LIMIT, QuestionTimer r i))
   \<and> (cached_question s r i = Some q \<and> \<not> redis_exists (redis s) now (key_firstUser r i)
       \<and> now' < now + REDIS_TTL * 1000 \<longrightarrow>
      redis_exists (redis (handleQuestionExpiry s now r i)) now' (key_expired r i))
   \<and> (redis_exists (redis s) now (key_expired r i) \<longrightarrow>
      fst (handleSubmitAnswer s c now r i ch) \<noteq> None
      \<and> (snd (handleSubmitAnswer s c now r i ch) = s
         \<or> snd (handleSubmitAnswer s c now r i ch) = console_error s ''Error submitting answer''))
   \<and> (redis_exists (redis s) now (key_expired r i)
       \<and> participant_in s c now r u \<and> 0 \<le> i \<and> i < int QUESTIONS_PER_QUIZ \<and> 0 \<le> ch \<and> ch \<le> 3
       \<and> redis_get (redis s) now (key_currentQuestion r) = Inr (Some (toString_int i))
       \<and> redis_get (redis s) now (key_answered r i u) = Inr h \<longrightarrow>
      handleSubmitAnswer s c now r i ch = (Some (WebSocketError 410 ''Question has expired''), s))"
  using sent_handleNextQuestion [of s r i q now] timeouts_handleNextQuestion [of s r i q now]
    expired_after_handleQuestionExpiry [of s r i q now now']
    submit_expired_rejected [of s now r i c ch]
    submit_expired_410 [of s c now r u i ch h]
  by blast

lemma expired_q0_eq: "expired_q0 = handleQuestionExpiry (asking\<lparr>timeouts := (timeouts asking)(3 := None)\<rparr>) 16001 ''r1'' 0"
  by (simp add: expired_q0_def fire_timeout_def asking_def)

lemma expired_q0_flag: "now < 616001 \<Longrightarrow> redis_exists (redis expired_q0) now (key_expired ''r1'' 0)"
  unfolding expired_q0_eq
  by (rule expired_after_handleQuestionExpiry [where q = "example_question 1"])
     (simp_all add: cached_question_def asking_def redis_defs key_defs REDIS_TTL_def)

theorem expired_flag_gates_answers_witness:
  "cached_question asking ''r1'' 0 = Some (example_question 1)
   \<and> ws_sent (sockets (handleNextQuestion asking 20000 ''r1'' 0) ''c1'')
       = ws_sent (sockets asking ''c1'') @ [NextQuestion 0 (example_question 1) 20000 30000]
   \<and> timeouts (handleNextQuestion asking 20000 ''r1'' 0) 4 = Some (30000, QuestionTimer ''r1'' 0)
   \<and> redis_exists (redis (handleQuestionExpiry asking 16001 ''r1'' 0)) 17000 (key_expired ''r1'' 0)
   \<and> redis_exists (redis expired_q0) 17000 (key_expired ''r1'' 0)
   \<and> fst (handleSubmitAnswer expired_q0 ''c2'' 17000 ''r1'' 0 2) \<noteq> None"
proof -
  note t = expired_flag_gates_answers [where s = asking and r = "''r1''" and i = 0
      and q = "example_question 1" and now = 20000]
  note t' = expired_flag_gates_answers [where s = asking and r = "''r1''" and i = 0
      and q = "example_question 1" and now = 16001 and now' = 17000]
  note t'' = expired_flag_gates_answers [where s = expired_q0 and r = "''r1''" and i = 0
      and now = 17000 and c = "''c2''" and ch = 2]
  have q: "cached_question asking ''r1'' 0 = Some (example_question 1)" by (rule asking_question)
  have "ws_sent (sockets (handleNextQuestion asking 20000 ''r1'' 0) ''c1'')
        = ws_sent (sockets asking ''c1'')
          @ (if receives asking ''r1'' ''c1''
             then [NextQuestion 0 (example_question 1) 20000 (20000 + QUESTION_TIME_LIMIT)] else [])"
    and "timeouts (handleNextQuestion asking 20000 ''r1'' 0) (nextHandle asking)
         = Some (20000 + QUESTION_TIME_LIMIT, QuestionTimer ''r1'' 0)"
    using t q by blast+
  then have a: "ws_sent (sockets (handleNextQuestion asking 20000 ''r1'' 0) ''c1'')
        = ws_sent (sockets asking ''c1'') @ [NextQuestion 0 (example_question 1) 20000 30000]"
    and b: "timeouts (handleNextQuestion asking 20000 ''r1'' 0) 4 = Some (30000, QuestionTimer ''r1'' 0)"
    by (simp_all add: asking_receives QUESTION_TIME_LIMIT_def) (simp add: asking_def)
  have c: "redis_exists (redis (handleQuestionExpiry asking 16001 ''r1'' 0)) 17000 (key_expired ''r1'' 0)"
    using t' q asking_fresh(2) [of 16001] by (simp add: REDIS_TTL_def)
  have d: "redis_exists (redis expired_q0) 17000 (key_expired ''r1'' 0)"
    by (rule expired_q0_flag) simp
  have e: "fst (handleSubmitAnswer expired_q0 ''c2'' 17000 ''r1'' 0 2) \<noteq> None"
    using t'' d by blast
  from q a b c d e show ?thesis by blast
qed

lemma example_claim_transaction:
  "\<exists>d. claim_transaction example_db now ''r1'' 0 1 = Some d
       \<and> roomParticipants d = [\<lparr>rp_roomId = ''r1'', rp_userId = 2, rp_score = 0\<rparr>,
                               \<lparr>rp_roomId = ''r1'', rp_userId = 1, rp_score = 1\<rparr>]"
  by (simp add: claim_transaction_def answerClaim_create_def roomParticipant_increment_def
        is_claim_row_def is_participant_row_def example_db_def)

text \<open>
  Claim C4 as stated fails. Question 0 was announced with \<^verbatim>\<open>expiresAt\<close> = 16000. A correct
  answer handled at time 16000, before the deadline timer's callback has run, claims the
  first-correct key and gets its score. And after an earlier winner (whose claim cancels
  the deadline timer, so the flag is never set), an answer at time 17000 still marks its
  sender as having answered.
\<close>

theorem deadline_counterexample:
  "NextQuestion 0 (example_question 1) 6000 16000 \<in> set (ws_sent (sockets asking ''c1''))
   \<and> fst (handleSubmitAnswer asking ''c1'' 16000 ''r1'' 0 2) = None
   \<and> redis (snd (handleSubmitAnswer asking ''c1'' 16000 ''r1'' 0 2)) (key_firstUser ''r1'' 0)
       = Some (RString ''1'', Some 616000)
   \<and> roomParticipants (prisma (snd (handleSubmitAnswer asking ''c1'' 16000 ''r1'' 0 2)))
       = [\<lparr>rp_roomId = ''r1'', rp_userId = 2, rp_score = 0\<rparr>,
          \<lparr>rp_roomId = ''r1'', rp_userId = 1, rp_score = 1\<rparr>]
   \<and> redis (snd (handleSubmitAnswer asking ''c1'' 15500 ''r1'' 0 2)) (key_answered ''r1'' 0 2) = None
   \<and> redis (snd (handleSubmitAnswer (snd (handleSubmitAnswer asking ''c1'' 15500 ''r1'' 0 2))
                ''c2'' 17000 ''r1'' 0 0)) (key_answered ''r1'' 0 2)
       = Some (RString ''1'', Some 617000)"
proof -
  have frame: "NextQuestion 0 (example_question 1) 6000 16000 \<in> set (ws_sent (sockets asking ''c1''))"
    by (simp add: asking_def new_ws_def)
  have p1: "participant_in asking ''c1'' now ''r1'' 1" if "now < 600200" for now
    using that by (rule asking_participants)
  have win: "handleSubmitAnswer asking ''c1'' now ''r1'' 0 2
             = (None, record_winner
                  (asking\<lparr>redis := redis_set_ex
                     (redis_set_ex (redis asking) now (key_answered ''r1'' 0 1) ''1'' REDIS_TTL)
                     now (key_firstUser ''r1'' 0) (toString_nat 1) REDIS_TTL\<rparr>) now ''r1'' 0 1
                  (example_question 1))"
    if "now < 600200" for now
    using winning_submission [OF p1 [OF that] asking_active asking_fresh(1) asking_fresh(2)
        asking_question] that
    by simp
  have late_win:
    "fst (handleSubmitAnswer asking ''c1'' 16000 ''r1'' 0 2) = None"
    "redis (snd (handleSubmitAnswer asking ''c1'' 16000 ''r1'' 0 2)) (key_firstUser ''r1'' 0)
       = Some (RString ''1'', Some 616000)"
    "roomParticipants (prisma (snd (handleSubmitAnswer asking ''c1'' 16000 ''r1'' 0 2)))
       = [\<lparr>rp_roomId = ''r1'', rp_userId = 2, rp_score = 0\<rparr>,
          \<lparr>rp_roomId = ''r1'', rp_userId = 1, rp_score = 1\<rparr>]"
  proof -
    obtain d where d: "claim_transaction example_db 16000 ''r1'' 0 1 = Some d"
      "roomParticipants d = [\<lparr>rp_roomId = ''r1'', rp_userId = 2, rp_score = 0\<rparr>,
                             \<lparr>rp_roomId = ''r1'', rp_userId = 1, rp_score = 1\<rparr>]"
      using example_claim_transaction [of 16000] by blast
    have db: "prisma asking = example_db" by (simp add: asking_def)
    show "fst (handleSubmitAnswer asking ''c1'' 16000 ''r1'' 0 2) = None"
      by (simp add: win)
    show "redis (snd (handleSubmitAnswer asking ''c1'' 16000 ''r1'' 0 2)) (key_firstUser ''r1'' 0)
       = Some (RString ''1'', Some 616000)"
      by (simp add: win toString_nat_digit REDIS_TTL_def del: One_nat_def)
    show "roomParticipants (prisma (snd (handleSubmitAnswer asking ''c1'' 16000 ''r1'' 0 2)))
       = [\<lparr>rp_roomId = ''r1'', rp_userId = 2, rp_score = 0\<rparr>,
          \<lparr>rp_roomId = ''r1'', rp_userId = 1, rp_score = 1\<rparr>]"
      by (simp add: win prisma_record_winner db d del: One_nat_def)
  qed
  let ?s1 = "snd (handleSubmitAnswer asking ''c1'' 15500 ''r1'' 0 2)"
  have other: "key_answered ''r1'' 0 2 \<noteq> key_answered ''r1'' 0 1"
    by (simp add: key_defs toString_nat_digit)
  have before: "redis ?s1 (key_answered ''r1'' 0 2) = None"
    using redis_handleSubmitAnswer [of asking "''c1''" 1 "key_answered ''r1'' 0 2" "''r1''" 0 15500 2] other
    by (simp add: asking_def new_ws_def key_defs)
  have p2: "participant_in ?s1 ''c2'' 17000 ''r1'' 2"
    using participant_in_after_submit [OF p1, of 15500 15500 0 2 "''c2''" 17000 2]
      asking_participants(2) [of 17000] by simp
  have a2: "question_active ?s1 17000 ''r1'' 0"
    using question_active_after_submit [OF p1, of 15500 15500 0 2 17000] asking_active [of 17000]
    by simp
  have g: "redis_get (redis ?s1) 17000 (key_answered ''r1'' 0 2) = Inr None"
    using before by (simp add: redis_get_def redis_live_def)
  have "handleSubmitAnswer ?s1 ''c2'' 17000 ''r1'' 0 0 = answer_and_claim ?s1 17000 ''r1'' 0 0 2"
    using submit_checked [OF p2 a2 _ _ g, of 0] by simp
  then have after: "redis (snd (handleSubmitAnswer ?s1 ''c2'' 17000 ''r1'' 0 0)) (key_answered ''r1'' 0 2)
        = Some (RString ''1'', Some 617000)"
    using answered_after_answer_and_claim [OF redis_get_None_exists [OF g], of 0]
    by (simp add: REDIS_TTL_def)
  from frame late_win before after show ?thesis by blast
qed

section \<open>Joining a room again\<close>

lemma join_transaction_existing:
  "list_ex (is_participant_row r u) (roomParticipants d) \<Longrightarrow> join_transaction d r u = Inr d' \<Longrightarrow> d' = d"
  by (auto simp: join_transaction_def roomParticipant_upsert_def split: option.splits if_splits)

lemma prisma_handleJoinRoom:
  "prisma (snd (handleJoinRoom s c now r))
   = (case ws_userId (sockets s c) of
        None \<Rightarrow> prisma s
      | Some u \<Rightarrow> if r = [] \<or> length r > 50 then prisma s
                  else (case join_transaction (prisma s) r u of Inl _ \<Rightarrow> prisma s | Inr d \<Rightarrow> d))"
  by (simp add: handleJoinRoom_def Let_def split: sum.split option.split)

lemma sent_sendResponse:
  "ws_sent (sockets (sendResponse s c fr) c')
   = ws_sent (sockets s c') @ (if c' = c \<and> ws_readyState (sockets s c) = OPEN then [fr] else [])"
  by (simp add: sendResponse_def update_ws_def)

lemma readyState_broadcastToRoom [simp]:
  "ws_readyState (sockets (broadcastToRoom s r m) c) = ws_readyState (sockets s c)"
  by (simp add: sockets_broadcastToRoom)

lemma sent_handleJoinRoom:
  assumes "fst (handleJoinRoom s c now r) = None" and "ws_userId (sockets s c) = Some u"
  shows "ws_sent (sockets (snd (handleJoinRoom s c now r)) c')
         = ws_sent (sockets s c')
           @ (if (c' = c \<or> receives s r c') \<and> ws_readyState (sockets s c') = OPEN
              then [ParticipantJoined u (case users (prisma s) u of
                                           None \<Rightarrow> ''Anonymous''
                                         | Some x \<Rightarrow> name_or_anonymous (user_name x))]
              else [])
           @ (if c' = c \<and> ws_readyState (sockets s c) = OPEN then [JoinedRoom r] else [])"
proof -
  from assms obtain d rd where
    tx: "join_transaction (prisma s) r u = Inr d"
    and sadd: "redis_sadd (redis s) now (key_participants r) (toString_nat u) = Inr rd"
    and ok: "r \<noteq> []" "length r \<le> 50"
    by (auto simp: handleJoinRoom_def Let_def split: sum.splits option.splits if_splits)
  have users: "users d = users (prisma s)"
    using tx by (auto simp: join_transaction_def roomParticipant_upsert_def
        split: option.splits if_splits)
  show ?thesis
    using tx sadd ok assms(2) users
    by (auto simp: handleJoinRoom_def Let_def sent_sendResponse sent_broadcastToRoom receives_def
          update_ws_def set_add_def split: option.splits)
qed

lemma asking_rejoin: "fst (handleJoinRoom asking ''c1'' 7000 ''r1'') = None"
  by (simp add: handleJoinRoom_def Let_def join_transaction_def roomParticipant_upsert_def
        is_participant_row_def asking_def example_db_def new_ws_def redis_sadd_def redis_live_def
        key_defs split: sum.split option.split)

text \<open>
  Claim C8, as the code has it. For a user who already has a participant row of the room, a
  join of that room leaves the store as it is, whatever its outcome: no second row is made
  and the row is not changed. When the join succeeds, it is announced like any other: every
  open socket of the room, the joining one included, gets a \<^verbatim>\<open>participantJoined\<close> frame for the
  user, and the joining socket gets \<^verbatim>\<open>joinedRoom\<close>.
\<close>

theorem rejoin_keeps_row:
  assumes "ws_userId (sockets s c) = Some u"
    and "list_ex (is_participant_row r u) (roomParticipants (prisma s))"
  shows "prisma (snd (handleJoinRoom s c now r)) = prisma s
         \<and> (fst (handleJoinRoom s c now r) = None \<longrightarrow>
             (\<forall>c'. ws_sent (sockets (snd (handleJoinRoom s c now r)) c')
                  = ws_sent (sockets s c')
                    @ (if (c' = c \<or> receives s r c') \<and> ws_readyState (sockets s c') = OPEN
                       then [ParticipantJoined u (case users (prisma s) u of
                                                    None \<Rightarrow> ''Anonymous''
                                                  | Some x \<Rightarrow> name_or_anonymous (user_name x))]
                       else [])
                    @ (if c' = c \<and> ws_readyState (sockets s c) = OPEN then [JoinedRoom r] else [])))"
proof -
  have "prisma (snd (handleJoinRoom s c now r)) = prisma s"
    using assms join_transaction_existing [OF assms(2)]
    by (auto simp: prisma_handleJoinRoom split: sum.splits)
  then show ?thesis
    using sent_handleJoinRoom [OF _ assms(1)] by blast
qed

theorem rejoin_keeps_row_witness:
  "ws_userId (sockets asking ''c1'') = Some 1
   \<and> list_ex (is_participant_row ''r1'' 1) (roomParticipants (prisma asking))
   \<and> fst (handleJoinRoom asking ''c1'' 7000 ''r1'') = None
   \<and> prisma (snd (handleJoinRoom asking ''c1'' 7000 ''r1'')) = prisma asking
   \<and> ws_sent (sockets (snd (handleJoinRoom asking ''c1'' 7000 ''r1'')) ''c1'')
       = ws_sent (sockets asking ''c1'') @ [ParticipantJoined 1 ''Ann'', JoinedRoom ''r1'']"
proof -
  have u: "ws_userId (sockets asking ''c1'') = Some 1" by (simp add: asking_def new_ws_def)
  have p: "list_ex (is_participant_row ''r1'' 1) (roomParticipants (prisma asking))"
    by (simp add: asking_def example_db_def is_participant_row_def)
  note t = rejoin_keeps_row [OF u p, of 7000]
  have "prisma (snd (handleJoinRoom asking ''c1'' 7000 ''r1'')) = prisma asking"
    using t by blast
  moreover have "ws_sent (sockets (snd (handleJoinRoom asking ''c1'' 7000 ''r1'')) ''c1'')
       = ws_sent (sockets asking ''c1'') @ [ParticipantJoined 1 ''Ann'', JoinedRoom ''r1'']"
    using t asking_rejoin
    by (simp add: asking_receives del: One_nat_def)
       (simp add: asking_def example_db_def new_ws_def name_or_anonymous_def)
  ultimately show ?thesis using u p asking_rejoin by blast
qed

text \<open>
  Claim C8 as stated fails: when user 1, a participant of the room, joins it again, the other
  socket of the room is sent a second \<^verbatim>\<open>participantJoined\<close> frame for user 1.
\<close>

theorem rejoin_counterexample:
  "list_ex (is_participant_row ''r1'' 1) (roomParticipants (prisma asking))
   \<and> ParticipantJoined 1 ''Ann'' \<in> set (ws_sent (sockets asking ''c2''))
   \<and> ws_sent (sockets (snd (handleJoinRoom asking ''c1'' 7000 ''r1'')) ''c2'')
       = ws_sent (sockets asking ''c2'') @ [ParticipantJoined 1 ''Ann'']"
proof -
  have u: "ws_userId (sockets asking ''c1'') = Some 1" by (simp add: asking_def new_ws_def)
  have p: "list_ex (is_participant_row ''r1'' 1) (roomParticipants (prisma asking))"
    by (simp add: asking_def example_db_def is_participant_row_def)
  have f: "ParticipantJoined 1 ''Ann'' \<in> set (ws_sent (sockets asking ''c2''))"
    by (simp add: asking_def new_ws_def)
  have "ws_sent (sockets (snd (handleJoinRoom asking ''c1'' 7000 ''r1'')) ''c2'')
       = ws_sent (sockets asking ''c2'') @ [ParticipantJoined 1 ''Ann'']"
    using sent_handleJoinRoom [OF asking_rejoin u, of "''c2''"]
    by (simp add: asking_receives del: One_nat_def)
       (simp add: asking_def example_db_def new_ws_def name_or_anonymous_def)
  with p f show ?thesis by blast
qed

section \<open>Ratings at the end of a quiz\<close>

lemma rate_participant_ok:
  assumes "users (prisma s) (rp_userId (fst pu)) \<noteq> None"
  shows "rate_participant (\<lambda>_. False) pu s
         = (standing_of (prisma s) pu,
            s\<lparr>prisma := (prisma s)\<lparr>playerRatings := (playerRatings (prisma s))
                 (rp_userId (fst pu) \<mapsto> st_newRating (standing_of (prisma s) pu))\<rparr>\<rparr>)"
  using assms
  by (cases "users (prisma s) (rp_userId (fst pu))")
     (simp_all add: rate_participant_def rating_transaction_def standing_of_def rating_base_def Let_def)

lemma standing_of_other:
  "rp_userId (fst pu) \<noteq> u \<Longrightarrow>
   standing_of (d\<lparr>playerRatings := (playerRatings d)(u \<mapsto> x)\<rparr>) pu = standing_of d pu"
  by (simp add: standing_of_def rating_base_def)

lemma dom_new_ratings: "dom (new_ratings d ps) = (\<lambda>pu. rp_userId (fst pu)) ` set ps"
  by (simp add: new_ratings_def dom_map_of_conv_image_fst image_image)

lemma new_ratings_Cons:
  "new_ratings d (pu # ps) = (new_ratings d ps)(rp_userId (fst pu) \<mapsto> st_newRating (standing_of d pu))"
  by (simp add: new_ratings_def)

lemma rate_participants_ok:
  "distinct (map (\<lambda>pu. rp_userId (fst pu)) ps) \<Longrightarrow>
   \<forall>pu \<in> set ps. users (prisma s) (rp_userId (fst pu)) \<noteq> None \<Longrightarrow>
   fst (rate_participants (\<lambda>_. False) ps s) = map (standing_of (prisma s)) ps
   \<and> sockets (snd (rate_participants (\<lambda>_. False) ps s)) = sockets s
   \<and> roomSockets (snd (rate_participants (\<lambda>_. False) ps s)) = roomSockets s
   \<and> playerRatings (prisma (snd (rate_participants (\<lambda>_. False) ps s)))
     = playerRatings (prisma s) ++ new_ratings (prisma s) ps"
proof (induction ps arbitrary: s)
  case Nil
  show ?case by (simp add: new_ratings_def)
next
  case (Cons pu ps)
  define u where "u = rp_userId (fst pu)"
  define x where "x = st_newRating (standing_of (prisma s) pu)"
  define d1 where "d1 = (prisma s)\<lparr>playerRatings := (playerRatings (prisma s))(u \<mapsto> x)\<rparr>"
  define s1 where "s1 = s\<lparr>prisma := d1\<rparr>"
  have one: "rate_participant (\<lambda>_. False) pu s = (standing_of (prisma s) pu, s1)"
    unfolding s1_def d1_def u_def x_def using Cons.prems(2) by (intro rate_participant_ok) simp
  have d: "distinct (map (\<lambda>pu. rp_userId (fst pu)) ps)" using Cons.prems(1) by simp
  have ni: "u \<notin> (\<lambda>pu. rp_userId (fst pu)) ` set ps" using Cons.prems(1) by (simp add: u_def)
  have img: "rp_userId (fst pu') \<in> (\<lambda>pu. rp_userId (fst pu)) ` set ps" if "pu' \<in> set ps" for pu'
    using that by (rule imageI)
  have fresh: "rp_userId (fst pu') \<noteq> u" if "pu' \<in> set ps" for pu'
    using ni img [OF that] by metis
  have p1: "prisma s1 = d1" by (simp add: s1_def)
  have us: "\<forall>pu \<in> set ps. users (prisma s1) (rp_userId (fst pu)) \<noteq> None"
    using Cons.prems(2) by (simp add: p1 d1_def)
  note ih = Cons.IH [OF d us]
  have so: "standing_of d1 pu' = standing_of (prisma s) pu'" if "pu' \<in> set ps" for pu'
    unfolding d1_def using fresh [OF that] by (rule standing_of_other)
  have same: "map (standing_of d1) ps = map (standing_of (prisma s)) ps"
    using so by simp
  have nr: "new_ratings d1 ps = new_ratings (prisma s) ps"
    unfolding new_ratings_def by (rule arg_cong [where f = map_of], rule map_cong [OF refl]) (simp add: so)
  have notin: "u \<notin> dom (new_ratings (prisma s) ps)"
    using ni by (simp add: dom_new_ratings)
  have pr1: "playerRatings d1 = (playerRatings (prisma s))(u \<mapsto> x)" by (simp add: d1_def)
  have step: "rate_participants (\<lambda>_. False) (pu # ps) s
              = (standing_of (prisma s) pu # fst (rate_participants (\<lambda>_. False) ps s1),
                 snd (rate_participants (\<lambda>_. False) ps s1))"
    by (simp add: one case_prod_beta)
  have a: "fst (rate_participants (\<lambda>_. False) (pu # ps) s) = map (standing_of (prisma s)) (pu # ps)"
    unfolding step using ih same by (simp add: p1)
  have b: "sockets (snd (rate_participants (\<lambda>_. False) (pu # ps) s)) = sockets s"
    unfolding step using ih by (simp add: s1_def)
  have c: "roomSockets (snd (rate_participants (\<lambda>_. False) (pu # ps) s)) = roomSockets s"
    unfolding step using ih by (simp add: s1_def)
  have "playerRatings (prisma (snd (rate_participants (\<lambda>_. False) (pu # ps) s)))
        = (playerRatings (prisma s))(u \<mapsto> x) ++ new_ratings (prisma s) ps"
    using ih by (simp only: step snd_conv p1 pr1 nr)
  also have "\<dots> = (playerRatings (prisma s) ++ new_ratings (prisma s) ps)(u \<mapsto> x)"
    using notin by (rule map_add_upd_left)
  also have "\<dots> = playerRatings (prisma s) ++ new_ratings (prisma s) (pu # ps)"
    by (simp only: new_ratings_Cons map_add_upd u_def x_def)
  finally show ?case using a b c by blast
qed

lemma handleQuizFinished_standings:
  assumes "distinct (map (\<lambda>pu. rp_userId (fst pu)) ps)"
    and "\<forall>pu \<in> set ps. users (prisma s) (rp_userId (fst pu)) \<noteq> None"
  shows "ws_sent (sockets (handleQuizFinished s r (Some ps) (\<lambda>_. False)) c)
         = ws_sent (sockets s c)
           @ (if receives s r c then [QuizFinished (map (standing_of (prisma s)) ps)] else [])"
    and "playerRatings (prisma (handleQuizFinished s r (Some ps) (\<lambda>_. False)))
         = playerRatings (prisma s) ++ new_ratings (prisma s) ps"
proof -
  define s1 where "s1 = snd (rate_participants (\<lambda>_. False) ps s)"
  from rate_participants_ok [OF assms]
  have f: "fst (rate_participants (\<lambda>_. False) ps s) = map (standing_of (prisma s)) ps"
    and so: "sockets s1 = sockets s" and rs: "roomSockets s1 = roomSockets s"
    and pr: "playerRatings (prisma s1) = playerRatings (prisma s) ++ new_ratings (prisma s) ps"
    by (simp_all add: s1_def)
  have rc: "receives s1 r c = receives s r c" by (simp add: receives_def so rs split: option.split)
  have h: "handleQuizFinished s r (Some ps) (\<lambda>_. False)
           = cleanupRoomData (broadcastToRoom s1 r (QuizFinished (map (standing_of (prisma s)) ps))) r"
    by (simp add: handleQuizFinished_def case_prod_beta f s1_def)
  show "ws_sent (sockets (handleQuizFinished s r (Some ps) (\<lambda>_. False)) c)
         = ws_sent (sockets s c)
           @ (if receives s r c then [QuizFinished (map (standing_of (prisma s)) ps)] else [])"
    by (simp add: h sent_broadcastToRoom rc so)
  show "playerRatings (prisma (handleQuizFinished s r (Some ps) (\<lambda>_. False)))
         = playerRatings (prisma s) ++ new_ratings (prisma s) ps"
    by (simp add: h pr)
qed

lemma map_key_filter:
  "map (\<lambda>p. (f p, g p)) (filter (\<lambda>p. f p = r) xs) = map (Pair r) (map g (filter (\<lambda>p. f p = r) xs))"
  by (induction xs) simp_all

lemma findMany_distinct:
  assumes "findMany_byScoreDesc d r ps"
    and "distinct (map (\<lambda>p. (rp_roomId p, rp_userId p)) (roomParticipants d))"
  shows "distinct (map (\<lambda>pu. rp_userId (fst pu)) ps)"
proof -
  let ?rows = "filter (\<lambda>p. rp_roomId p = r) (roomParticipants d)"
  have "distinct (map (\<lambda>p. (rp_roomId p, rp_userId p)) ?rows)"
    using assms(2) by (rule distinct_map_filter)
  then have "distinct (map (Pair r) (map rp_userId ?rows))" by (simp only: map_key_filter)
  then have dr: "distinct (map rp_userId ?rows)"
    by (rule distinct_map [THEN iffD1, THEN conjunct1])
  from assms(1) have "mset (map fst ps) = mset ?rows" by (simp add: findMany_byScoreDesc_def)
  then have "mset (map rp_userId (map fst ps)) = mset (map rp_userId ?rows)" by (metis mset_map)
  with dr have "distinct (map rp_userId (map fst ps))" by (metis mset_eq_imp_distinct_iff)
  then show ?thesis by (simp add: comp_def)
qed

lemma findMany_users:
  "findMany_byScoreDesc d r ps \<Longrightarrow> \<forall>pu \<in> set ps. users d (rp_userId (fst pu)) \<noteq> None"
  by (simp add: findMany_byScoreDesc_def list_all_iff)

lemma findMany_sorted:
  "findMany_byScoreDesc d r ps \<Longrightarrow>
   sorted_wrt (\<lambda>a b. st_score a \<ge> st_score b) (map (standing_of d) ps)"
  by (simp add: findMany_byScoreDesc_def sorted_wrt_map standing_of_def)

lemma new_ratings_at:
  assumes "distinct (map (\<lambda>pu. rp_userId (fst pu)) ps)" and "pu \<in> set ps"
  shows "new_ratings d ps (rp_userId (fst pu)) = Some (st_newRating (standing_of d pu))"
  unfolding new_ratings_def
proof (rule map_of_is_SomeI)
  show "distinct (map fst (map (\<lambda>pu. (rp_userId (fst pu), st_newRating (standing_of d pu))) ps))"
    using assms(1) by (simp add: comp_def)
  show "(rp_userId (fst pu), st_newRating (standing_of d pu))
        \<in> set (map (\<lambda>pu. (rp_userId (fst pu), st_newRating (standing_of d pu))) ps)"
    unfolding set_map using assms(2) by (rule imageI)
qed

lemma newRating_cases:
  "playerRatings d (rp_userId (fst pu)) = None \<Longrightarrow>
   st_newRating (standing_of d pu) = 1200 + rp_score (fst pu) * 10"
  "playerRatings d (rp_userId (fst pu)) = Some x \<Longrightarrow> 1200 \<le> x \<Longrightarrow>
   st_newRating (standing_of d pu) = max 1200 x + rp_score (fst pu) * 10"
  by (simp_all add: standing_of_def rating_base_def)

lemma tied_query: "findMany_byScoreDesc (prisma tied) ''r1'' tied_rows"
  by (simp add: findMany_byScoreDesc_def tied_def tied_rows_def example_db_def)

lemma tied_unique:
  "distinct (map (\<lambda>p. (rp_roomId p, rp_userId p)) (roomParticipants (prisma tied)))"
  by (simp add: tied_def)

lemma tied_standings:
  "map (standing_of (prisma tied)) tied_rows
   = [\<lparr>st_userId = 2, st_userName = ''Bob'', st_score = 5, st_newRating = 1050\<rparr>,
      \<lparr>st_userId = 1, st_userName = ''Ann'', st_score = 5, st_newRating = 1250\<rparr>]"
  by (simp add: tied_def tied_rows_def standing_of_def rating_base_def name_or_anonymous_def)

lemma tied_receives: "receives tied ''r1'' ''c1''" "receives tied ''r1'' ''c2''"
  by (simp_all add: receives_def tied_def asking_def new_ws_def)

text \<open>
  Claim C2, as the code has it. When a quiz finishes, the participant query has returned
  the rows of the room (each \<open>(roomId, userId)\<close> pair being unique) and no rating
  transaction fails, every open socket of the room is sent one \<^verbatim>\<open>quizFinished\<close> frame. Its
  standings give, for each participant, the user id, the user name, the score and the new
  rating, in the order of the query's answer, which is descending in the score. The new
  rating is the rating the user starts from plus ten times the score, and it is what the
  store holds for the user afterwards, the ratings of all other users being untouched.
  The rating a user starts from is 1200 when none is stored; when the stored rating is
  at least 1200 the new rating is \<open>max(1200, prevRating) + score * 10\<close>.
\<close>

theorem final_standings:
  assumes q: "findMany_byScoreDesc (prisma s) r participants"
    and uniq: "distinct (map (\<lambda>p. (rp_roomId p, rp_userId p)) (roomParticipants (prisma s)))"
  shows "(\<forall>c. ws_sent (sockets (handleQuizFinished s r (Some participants) (\<lambda>_. False)) c)
               = ws_sent (sockets s c)
                 @ (if receives s r c
                    then [QuizFinished (map (standing_of (prisma s)) participants)] else []))
         \<and> sorted_wrt (\<lambda>a b. st_score a \<ge> st_score b) (map (standing_of (prisma s)) participants)
         \<and> playerRatings (prisma (handleQuizFinished s r (Some participants) (\<lambda>_. False)))
           = playerRatings (prisma s) ++ new_ratings (prisma s) participants
         \<and> (\<forall>pu \<in> set participants.
               new_ratings (prisma s) participants (rp_userId (fst pu))
               = Some (st_newRating (standing_of (prisma s) pu))
               \<and> (playerRatings (prisma s) (rp_userId (fst pu)) = None \<longrightarrow>
                    st_newRating (standing_of (prisma s) pu) = 1200 + rp_score (fst pu) * 10)
               \<and> (\<forall>x. playerRatings (prisma s) (rp_userId (fst pu)) = Some x \<and> 1200 \<le> x \<longrightarrow>
                    st_newRating (standing_of (prisma s) pu) = max 1200 x + rp_score (fst pu) * 10))"
proof -
  note d = findMany_distinct [OF q uniq]
  note u = findMany_users [OF q]
  show ?thesis
    using handleQuizFinished_standings [OF d u] findMany_sorted [OF q] new_ratings_at [OF d]
      newRating_cases
    by blast
qed

theorem final_standings_witness:
  "findMany_byScoreDesc (prisma tied) ''r1'' tied_rows
   \<and> distinct (map (\<lambda>p. (rp_roomId p, rp_userId p)) (roomParticipants (prisma tied)))
   \<and> ws_sent (sockets (handleQuizFinished tied ''r1'' (Some tied_rows) (\<lambda>_. False)) ''c2'')
     = ws_sent (sockets tied ''c2'')
       @ [QuizFinished [\<lparr>st_userId = 2, st_userName = ''Bob'', st_score = 5, st_newRating = 1050\<rparr>,
                        \<lparr>st_userId = 1, st_userName = ''Ann'', st_score = 5, st_newRating = 1250\<rparr>]]
   \<and> playerRatings (prisma (handleQuizFinished tied ''r1'' (Some tied_rows) (\<lambda>_. False)))
     = playerRatings (prisma tied) ++ new_ratings (prisma tied) tied_rows"
proof -
  note t = final_standings [OF tied_query tied_unique]
  from t have "ws_sent (sockets (handleQuizFinished tied ''r1'' (Some tied_rows) (\<lambda>_. False)) ''c2'')
     = ws_sent (sockets tied ''c2'')
       @ (if receives tied ''r1'' ''c2''
          then [QuizFinished (map (standing_of (prisma tied)) tied_rows)] else [])"
    by blast
  then have a: "ws_sent (sockets (handleQuizFinished tied ''r1'' (Some tied_rows) (\<lambda>_. False)) ''c2'')
     = ws_sent (sockets tied ''c2'')
       @ [QuizFinished [\<lparr>st_userId = 2, st_userName = ''Bob'', st_score = 5, st_newRating = 1050\<rparr>,
                        \<lparr>st_userId = 1, st_userName = ''Ann'', st_score = 5, st_newRating = 1250\<rparr>]]"
    by (simp only: tied_receives tied_standings if_True)
  from t have b: "playerRatings (prisma (handleQuizFinished tied ''r1'' (Some tied_rows) (\<lambda>_. False)))
     = playerRatings (prisma tied) ++ new_ratings (prisma tied) tied_rows"
    by blast
  from tied_query tied_unique a b show ?thesis by blast
qed

text \<open>
  Claim C2 as stated fails. User 2 has the stored rating 1000 and ends with the score 5,
  as does user 1: the new rating of user 2 is 1050 and not \<open>max(1200, 1000) + 50\<close>, and
  with the rows returned in the order of their insertion user 2 stands before user 1.
\<close>

theorem standings_counterexample:
  "findMany_byScoreDesc (prisma tied) ''r1'' tied_rows
   \<and> playerRatings (prisma tied) 2 = Some 1000
   \<and> ws_sent (sockets (handleQuizFinished tied ''r1'' (Some tied_rows) (\<lambda>_. False)) ''c1'')
     = ws_sent (sockets tied ''c1'')
       @ [QuizFinished [\<lparr>st_userId = 2, st_userName = ''Bob'', st_score = 5, st_newRating = 1050\<rparr>,
                        \<lparr>st_userId = 1, st_userName = ''Ann'', st_score = 5, st_newRating = 1250\<rparr>]]
   \<and> playerRatings (prisma (handleQuizFinished tied ''r1'' (Some tied_rows) (\<lambda>_. False))) 2 = Some 1050
   \<and> (1050 :: int) \<noteq> max 1200 1000 + 5 * 10"
proof -
  have d: "distinct (map (\<lambda>pu. rp_userId (fst pu)) tied_rows)" by (simp add: tied_rows_def)
  have u: "\<forall>pu \<in> set tied_rows. users (prisma tied) (rp_userId (fst pu)) \<noteq> None"
    by (simp add: tied_rows_def tied_def example_db_def)
  note h = handleQuizFinished_standings [OF d u]
  have a: "ws_sent (sockets (handleQuizFinished tied ''r1'' (Some tied_rows) (\<lambda>_. False)) ''c1'')
     = ws_sent (sockets tied ''c1'')
       @ [QuizFinished [\<lparr>st_userId = 2, st_userName = ''Bob'', st_score = 5, st_newRating = 1050\<rparr>,
                        \<lparr>st_userId = 1, st_userName = ''Ann'', st_score = 5, st_newRating = 1250\<rparr>]]"
    by (simp only: h(1) tied_receives tied_standings if_True)
  have "(playerRatings (prisma tied) ++ new_ratings (prisma tied) tied_rows) 2 = Some 1050"
    by (simp add: new_ratings_def tied_rows_def tied_def standing_of_def rating_base_def map_add_def)
  then have b: "playerRatings (prisma (handleQuizFinished tied ''r1'' (Some tied_rows) (\<lambda>_. False))) 2 = Some 1050"
    by (simp only: h(2))
  have c: "playerRatings (prisma tied) 2 = Some 1000" by (simp add: tied_def)
  from tied_query a b c show ?thesis by simp
qed

section \<open>Cleanup after a quiz\<close>

lemma toString_nat_last: "toString_nat n \<noteq> [] \<and> last (toString_nat n) = digit (n mod 10)"
  by (subst (1 2) toString_nat.simps) simp

lemma digit_in: "digit (n mod 10) \<in> set ''0123456789''"
  unfolding digit_def by (rule nth_mem) simp

lemma last_key_answered: "last (key_answered r i u) \<in> set ''0123456789''"
  using digit_in [of u] by (simp add: key_answered_def toString_nat_last)

lemma last_room_keys: "k \<in> set (room_keysToDelete r) \<Longrightarrow> last k \<in> set ''nserd''"
  by (auto simp: room_keysToDelete_def key_defs)

lemma key_answered_kept: "key_answered r i u \<notin> set (room_keysToDelete r')"
  using last_key_answered [of r i u] last_room_keys [of "key_answered r i u" r'] by auto

lemma rd_rate_participant [simp]: "redis (snd (rate_participant tf pu s)) = redis s"
  by (simp add: rate_participant_def Let_def split: option.split prod.split)

lemma rd_rate_participants [simp]: "redis (snd (rate_participants tf ps s)) = redis s"
  by (induction ps arbitrary: s) (simp_all add: case_prod_beta)

lemma redis_handleQuizFinished:
  "redis (handleQuizFinished s r fetched tf) = redis_del (redis s) (room_keysToDelete r)"
  by (simp add: handleQuizFinished_def case_prod_beta split: option.split)

lemma qc_handleQuizFinished: "questionsCache (handleQuizFinished s r fetched tf) r = None"
  by (simp add: handleQuizFinished_def case_prod_beta questionsCache_cleanupRoomData split: option.split)

lemma second_quiz_checks:
  "participant_in second_quiz ''c1'' 107000 ''r1'' 1" "question_active second_quiz 107000 ''r1'' 0"
  "redis second_quiz (key_answered ''r1'' 0 1) = Some (RString ''1'', Some 607000)"
  "redis answered_q0 (key_answered ''r1'' 0 1) = Some (RString ''1'', Some 607000)"
  by (simp_all add: participant_in_def question_active_def second_quiz_def answered_q0_def asking_def
        new_ws_def redis_defs key_defs toString_nat_digit QUESTIONS_PER_QUIZ_def REDIS_TTL_def)

text \<open>
  Claim C10. \<^verbatim>\<open>handleQuizFinished\<close> removes the room's current-question key and its
  questions-cache entry, so the room can be started again; but no answered flag is among
  the keys it deletes. A flag \<open>q:i:answered:u\<close> set during the quiz is still there
  afterwards with its expiry time, and as long as it lives, in any later state that still
  holds it, a \<^verbatim>\<open>submitAnswer\<close> of user \<open>u\<close> for question \<open>i\<close> that passes every check
  returns without an error and without any effect: the answer of the new quiz is dropped.
\<close>

theorem stale_answered_flag:
  assumes flag: "redis s (key_answered r i u) = Some (RString v, Some e)" and v: "v \<noteq> []"
    and kept: "redis s' (key_answered r i u)
               = redis (handleQuizFinished s r fetched txFails) (key_answered r i u)"
    and now: "now < e"
    and part: "participant_in s' c now r u" and act: "question_active s' now r i"
    and ch: "0 \<le> ch" "ch \<le> 3"
  shows "redis (handleQuizFinished s r fetched txFails) (key_currentQuestion r) = None
         \<and> questionsCache (handleQuizFinished s r fetched txFails) r = None
         \<and> redis (handleQuizFinished s r fetched txFails) (key_answered r i u)
           = Some (RString v, Some e)
         \<and> handleSubmitAnswer s' c now r i ch = (None, s')"
proof -
  have a: "redis (handleQuizFinished s r fetched txFails) (key_currentQuestion r) = None"
    by (simp add: redis_handleQuizFinished redis_del_def room_keysToDelete_def)
  have b: "redis (handleQuizFinished s r fetched txFails) (key_answered r i u)
           = Some (RString v, Some e)"
    by (simp add: redis_handleQuizFinished redis_del_def key_answered_kept flag)
  have "redis s' (key_answered r i u) = Some (RString v, Some e)" using kept b by simp
  then have "redis_get (redis s') now (key_answered r i u) = Inr (Some v)"
    using now by (simp add: redis_entry_live)
  from submit_checked [OF part act ch this] v
  have c: "handleSubmitAnswer s' c now r i ch = (None, s')" by simp
  from a qc_handleQuizFinished b c show ?thesis by blast
qed

theorem stale_answered_flag_witness:
  "redis answered_q0 (key_answered ''r1'' 0 1) = Some (RString ''1'', Some 607000)
   \<and> redis second_quiz (key_answered ''r1'' 0 1)
     = redis (handleQuizFinished answered_q0 ''r1'' None (\<lambda>_. False)) (key_answered ''r1'' 0 1)
   \<and> participant_in second_quiz ''c1'' 107000 ''r1'' 1
   \<and> question_active second_quiz 107000 ''r1'' 0
   \<and> q_correctIdx (example_question 1) = 2
   \<and> handleSubmitAnswer second_quiz ''c1'' 107000 ''r1'' 0 2 = (None, second_quiz)"
proof -
  have k: "redis second_quiz (key_answered ''r1'' 0 1)
           = redis (handleQuizFinished answered_q0 ''r1'' None (\<lambda>_. False)) (key_answered ''r1'' 0 1)"
    by (simp add: redis_handleQuizFinished redis_del_def key_answered_kept second_quiz_checks
          del: One_nat_def)
  note t = stale_answered_flag [where s = answered_q0 and s' = second_quiz and r = "''r1''"
      and i = 0 and u = 1 and v = "''1''" and e = 607000 and fetched = None
      and txFails = "\<lambda>_. False" and now = 107000 and c = "''c1''" and ch = 2]
  have "handleSubmitAnswer second_quiz ''c1'' 107000 ''r1'' 0 2 = (None, second_quiz)"
    using t [OF second_quiz_checks(4) _ k _ second_quiz_checks(1,2)] by simp
  with k second_quiz_checks show ?thesis by simp
qed

end
